theory Spec2Isabelle
  imports Main
begin

section \<open>The host: what the browser provides\<close>

text \<open>
  The two source files (the demo page and the extension popup) run inside Chrome. The
  parts of Chrome they call are not code of the repository; they are collected in a
  record of host functions, and every definition below takes the host as its first
  argument. Pixels are a type parameter.

  \<^item> \<open>blank\<close>: the pixel left by \<open>clearRect\<close> on the 2d context;
  \<^item> \<open>over\<close>: source-over compositing of an image pixel onto a canvas pixel;
  \<^item> \<open>png_base64\<close>: the base64 text of the PNG encoding of a pixel grid;
  \<^item> \<open>extension_id\<close>: the identifier behind \<open>chrome.runtime.getURL\<close>;
  \<^item> \<open>load\<close>: what an \<open>img\<close> element decodes from a URL when its
    \<open>load\<close> event fires (\<open>None\<close>: the event never fires);
  \<^item> \<open>parse_url\<close>: \<open>new URL(s)\<close>, \<open>None\<close> where it throws TypeError.
\<close>

datatype error = InvalidStateError | TypeError | TabsError

record parsed_url =
  protocol :: string
  hostname :: string

record 'p host =
  blank :: 'p
  over :: "'p \<Rightarrow> 'p \<Rightarrow> 'p"
  png_base64 :: "'p list list \<Rightarrow> string"
  extension_id :: string
  load :: "string \<Rightarrow> 'p list list option"
  parse_url :: "string \<Rightarrow> parsed_url option"

section \<open>Building the icon request (getIconUrl)\<close>

text \<open>\<open>String(size)\<close> for a natural number: its decimal digits.\<close>

definition digit_char :: "nat \<Rightarrow> char" where
  "digit_char d = char_of (48 + d mod 10)"

fun String :: "nat \<Rightarrow> string" where
  "String n = (if n < 10 then [digit_char n] else String (n div 10) @ [digit_char (n mod 10)])"

declare String.simps [simp del]

text \<open>
  \<open>url.searchParams.set\<close> serialises names and values as
  application/x-www-form-urlencoded: letters, digits and \<open>* - . _\<close> stay, a space
  becomes \<open>+\<close>, every other byte becomes \<open>%XX\<close> in upper-case hexadecimal.
\<close>

definition hex_char :: "nat \<Rightarrow> char" where
  "hex_char d = (if d mod 16 < 10 then char_of (48 + d mod 16) else char_of (55 + d mod 16))"

definition form_safe :: "char \<Rightarrow> bool" where
  "form_safe c = (let n = (of_char c :: nat) in
     (48 \<le> n \<and> n \<le> 57) \<or> (65 \<le> n \<and> n \<le> 90) \<or> (97 \<le> n \<and> n \<le> 122)
     \<or> n = 42 \<or> n = 45 \<or> n = 46 \<or> n = 95)"

definition form_encode_char :: "char \<Rightarrow> string" where
  "form_encode_char c =
     (if form_safe c then [c]
      else if c = CHR '' '' then ''+''
      else [CHR ''%'', hex_char ((of_char c :: nat) div 16), hex_char (of_char c :: nat)])"

definition form_encode :: "string \<Rightarrow> string" where
  "form_encode s = concat (map form_encode_char s)"

text \<open>\<open>chrome.runtime.getURL(path)\<close>.\<close>

definition runtime_getURL :: "'p host \<Rightarrow> string \<Rightarrow> string" where
  "runtime_getURL h path = ''chrome-extension://'' @ extension_id h @ path"

section \<open>The canvas\<close>

record 'p canvas =
  width :: nat
  height :: nat
  bitmap :: "'p list list"

text \<open>The pixel in column \<open>i\<close> of row \<open>j\<close>, if the grid has one there.\<close>

definition pixel_at :: "'p list list \<Rightarrow> nat \<Rightarrow> nat \<Rightarrow> 'p option" where
  "pixel_at rows i j =
     (if j < length rows \<and> i < length (rows ! j) then Some (rows ! j ! i) else None)"

definition canvas_pixel :: "'p host \<Rightarrow> 'p canvas \<Rightarrow> nat \<Rightarrow> nat \<Rightarrow> 'p" where
  "canvas_pixel h c i j = (case pixel_at (bitmap c) i j of Some p \<Rightarrow> p | None \<Rightarrow> blank h)"

text \<open>\<open>document.createElement('canvas')\<close> followed by the two size assignments.\<close>

definition createCanvas :: "'p host \<Rightarrow> nat \<Rightarrow> nat \<Rightarrow> 'p canvas" where
  "createCanvas h w ht =
     \<lparr>width = w, height = ht, bitmap = replicate ht (replicate w (blank h))\<rparr>"

text \<open>\<open>context.clearRect(x, y, w, ht)\<close>: the pixels inside the rectangle are reset.\<close>

definition clearRect :: "'p host \<Rightarrow> 'p canvas \<Rightarrow> nat \<Rightarrow> nat \<Rightarrow> nat \<Rightarrow> nat \<Rightarrow> 'p canvas" where
  "clearRect h c x y w ht =
     c\<lparr>bitmap :=
         map (\<lambda>j. map (\<lambda>i. if x \<le> i \<and> i < x + w \<and> y \<le> j \<and> j < y + ht
                             then blank h else canvas_pixel h c i j)
                       [0..<width c])
             [0..<height c]\<rparr>"

text \<open>
  An \<open>img\<close> element: its \<open>src\<close>, its load state and the \<open>load\<close>
  listeners registered on it. \<open>image.complete\<close> is true once loading has ended, with
  a decoded bitmap or broken. Each listener is one of the \<open>onLoad\<close> closures of
  \<open>testIcon\<close> (demo) and \<open>initIcon\<close> (popup), with the number of the promise it
  resolves.
\<close>

datatype 'p img_state = Loading | Loaded "'p list list" | Broken

datatype listener = DemoOnLoad nat | PopupOnLoad nat

record 'p image =
  src :: string
  img_state :: "'p img_state"
  listeners :: "listener list"

definition complete :: "'p image \<Rightarrow> bool" where
  "complete im = (img_state im \<noteq> Loading)"

text \<open>
  \<open>context.drawImage(image, dx, dy)\<close>: a broken image throws InvalidStateError, an image
  without decoded data draws nothing, and a decoded image is composited at its natural
  size with its top-left corner at \<open>(dx, dy)\<close>, clipped to the canvas.
\<close>

definition source_pixel :: "'p list list \<Rightarrow> nat \<Rightarrow> nat \<Rightarrow> nat \<Rightarrow> nat \<Rightarrow> 'p option" where
  "source_pixel bmp dx dy i j =
     (if dx \<le> i \<and> dy \<le> j then pixel_at bmp (i - dx) (j - dy) else None)"

definition drawImage :: "'p host \<Rightarrow> 'p canvas \<Rightarrow> 'p image \<Rightarrow> nat \<Rightarrow> nat \<Rightarrow> error + 'p canvas" where
  "drawImage h c im dx dy =
     (case img_state im of
        Broken \<Rightarrow> Inl InvalidStateError
      | Loading \<Rightarrow> Inr c
      | Loaded bmp \<Rightarrow>
          Inr (c\<lparr>bitmap :=
                 map (\<lambda>j. map (\<lambda>i. case source_pixel bmp dx dy i j of
                                       None \<Rightarrow> canvas_pixel h c i j
                                     | Some s \<Rightarrow> over h s (canvas_pixel h c i j))
                               [0..<width c])
                     [0..<height c]\<rparr>))"

text \<open>
  \<open>canvas.toDataURL()\<close>: the string \<open>data:,\<close> for a canvas without pixels, a PNG
  data URL otherwise.
\<close>

definition toDataURL :: "'p host \<Rightarrow> 'p canvas \<Rightarrow> string" where
  "toDataURL h c =
     (if width c = 0 \<or> height c = 0 then ''data:,''
      else ''data:image/png;base64,'' @ png_base64 h (bitmap c))"

section \<open>The icon tester (demo) and the icon loader (popup)\<close>

text \<open>
  The closure state of \<open>makeIconTester\<close> and \<open>makeIconLoader\<close>: the size, the
  canvas and \<open>missingData\<close>. \<open>None\<close> is JavaScript's \<open>undefined\<close>, the value
  of the popup's \<open>let missingData\<close>; the demo starts from the empty string.
\<close>

record 'p tester =
  icon_size :: nat
  canvas :: "'p canvas"
  missingData :: "string option"

definition makeIconTester :: "'p host \<Rightarrow> nat \<Rightarrow> 'p tester" where
  "makeIconTester h sz =
     \<lparr>icon_size = sz, canvas = createCanvas h sz sz, missingData = Some ''''\<rparr>"

definition makeIconLoader :: "'p host \<Rightarrow> nat \<Rightarrow> 'p tester" where
  "makeIconLoader h sz =
     \<lparr>icon_size = sz, canvas = createCanvas h sz sz, missingData = None\<rparr>"

text \<open>\<open>getIconUrl\<close> is the same text in both files.\<close>

definition getIconUrl :: "'p host \<Rightarrow> 'p tester \<Rightarrow> string \<Rightarrow> string" where
  "getIconUrl h t domain =
     runtime_getURL h ''/_favicon/''
       @ ''?'' @ form_encode ''pageUrl'' @ ''='' @ form_encode (''https://'' @ domain)
       @ ''&'' @ form_encode ''size'' @ ''='' @ form_encode (String (icon_size t))"

text \<open>
  \<open>getDataUrl\<close>: clear the whole canvas, draw the image, serialise. The demo draws at
  \<open>(canvas.width, 0)\<close>, the popup at \<open>(0, 0)\<close>. The canvas keeps what was drawn; when
  \<open>drawImage\<close> throws it has been cleared already.
\<close>

definition demo_getDataUrl :: "'p host \<Rightarrow> 'p tester \<Rightarrow> 'p image \<Rightarrow> (error + string) \<times> 'p tester" where
  "demo_getDataUrl h t im =
     (let c = clearRect h (canvas t) 0 0 (width (canvas t)) (height (canvas t))
      in case drawImage h c im (width c) 0 of
           Inl e \<Rightarrow> (Inl e, t\<lparr>canvas := c\<rparr>)
         | Inr c' \<Rightarrow> (Inr (toDataURL h c'), t\<lparr>canvas := c'\<rparr>))"

definition popup_getDataUrl :: "'p host \<Rightarrow> 'p tester \<Rightarrow> 'p image \<Rightarrow> (error + string) \<times> 'p tester" where
  "popup_getDataUrl h t im =
     (let c = clearRect h (canvas t) 0 0 (width (canvas t)) (height (canvas t))
      in case drawImage h c im 0 0 of
           Inl e \<Rightarrow> (Inl e, t\<lparr>canvas := c\<rparr>)
         | Inr c' \<Rightarrow> (Inr (toDataURL h c'), t\<lparr>canvas := c'\<rparr>))"

text \<open>
  \<open>compareImage\<close> (demo) and \<open>testImage\<close> (popup):
  \<open>imageData === missingData\<close>, a strict equality of a string with a string or with
  \<open>undefined\<close>.
\<close>

definition compareImage :: "'p host \<Rightarrow> 'p tester \<Rightarrow> 'p image \<Rightarrow> (error + bool) \<times> 'p tester" where
  "compareImage h t im =
     (case demo_getDataUrl h t im of
        (Inl e, t') \<Rightarrow> (Inl e, t')
      | (Inr imageData, t') \<Rightarrow> (Inr (Some imageData = missingData t'), t'))"

definition testImage :: "'p host \<Rightarrow> 'p tester \<Rightarrow> 'p image \<Rightarrow> (error + bool) \<times> 'p tester" where
  "testImage h t im =
     (case popup_getDataUrl h t im of
        (Inl e, t') \<Rightarrow> (Inl e, t')
      | (Inr imageData, t') \<Rightarrow> (Inr (Some imageData = missingData t'), t'))"

text \<open>
  \<open>loadImage(url)\<close> resolves with a fresh element once its \<open>load\<close> event has fired
  and its listener has removed itself; it never resolves (\<open>None\<close>) when the event
  never fires.
\<close>

definition loadImage :: "'p host \<Rightarrow> string \<Rightarrow> 'p image option" where
  "loadImage h u =
     (case load h u of
        None \<Rightarrow> None
      | Some bmp \<Rightarrow> Some \<lparr>src = u, img_state = Loaded bmp, listeners = []\<rparr>)"

text \<open>
  \<open>init\<close>: \<open>None\<close> when it never completes, \<open>Inl\<close> when it rejects, the calibrated
  tester otherwise.
\<close>

definition demo_init :: "'p host \<Rightarrow> 'p tester \<Rightarrow> (error + 'p tester) option" where
  "demo_init h t =
     (case loadImage h (getIconUrl h t '''') of
        None \<Rightarrow> None
      | Some missingImage \<Rightarrow>
          (case demo_getDataUrl h t missingImage of
             (Inl e, t') \<Rightarrow> Some (Inl e)
           | (Inr d, t') \<Rightarrow> Some (Inr (t'\<lparr>missingData := Some d\<rparr>))))"

definition popup_init :: "'p host \<Rightarrow> 'p tester \<Rightarrow> (error + 'p tester) option" where
  "popup_init h t =
     (case loadImage h (getIconUrl h t '''') of
        None \<Rightarrow> None
      | Some missingImage \<Rightarrow>
          (case popup_getDataUrl h t missingImage of
             (Inl e, t') \<Rightarrow> Some (Inl e)
           | (Inr d, t') \<Rightarrow> Some (Inr (t'\<lparr>missingData := Some d\<rparr>))))"

text \<open>
  Promises. The page holds the tester and the promises handed out so far; a call of
  \<open>testIcon\<close> or \<open>initIcon\<close> appends one, and its number is the length of the list
  before the call.
\<close>

datatype 'a promise = Pending | Fulfilled 'a | Rejected error

record 'p page =
  the_tester :: "'p tester"
  promises :: "bool promise list"

text \<open>\<open>resolve(v)\<close> settles a pending promise and does nothing to a settled one.\<close>

definition resolve :: "nat \<Rightarrow> 'a \<Rightarrow> 'a promise list \<Rightarrow> 'a promise list" where
  "resolve k v ps = (if k < length ps \<and> ps ! k = Pending then ps[k := Fulfilled v] else ps)"

text \<open>
  \<open>testIcon\<close> (demo) is an async function: on a complete image it returns the
  comparison, and an exception of \<open>compareImage\<close> rejects its promise; otherwise it
  registers \<open>onLoad\<close>.
\<close>

definition testIcon :: "'p host \<Rightarrow> 'p image \<Rightarrow> 'p page \<Rightarrow> 'p image \<times> 'p page" where
  "testIcon h im w =
     (if complete im then
        (case compareImage h (the_tester w) im of
           (Inl e, t') \<Rightarrow> (im, w\<lparr>the_tester := t', promises := promises w @ [Rejected e]\<rparr>)
         | (Inr v, t') \<Rightarrow> (im, w\<lparr>the_tester := t', promises := promises w @ [Fulfilled v]\<rparr>))
      else
        (im\<lparr>listeners := listeners im @ [DemoOnLoad (length (promises w))]\<rparr>,
         w\<lparr>promises := promises w @ [Pending]\<rparr>))"

text \<open>\<open>initIcon\<close> (popup) registers \<open>onLoad\<close> whatever the load state.\<close>

definition initIcon :: "'p host \<Rightarrow> 'p image \<Rightarrow> 'p page \<Rightarrow> 'p image \<times> 'p page" where
  "initIcon h im w =
     (im\<lparr>listeners := listeners im @ [PopupOnLoad (length (promises w))]\<rparr>,
      w\<lparr>promises := promises w @ [Pending]\<rparr>)"

text \<open>
  The two \<open>onLoad\<close> closures: remove the listener, compare, resolve. An exception
  inside a listener (or a rejection of \<open>testImage\<close>, which has no handler) leaves the
  promise pending.
\<close>

fun onLoad :: "'p host \<Rightarrow> listener \<Rightarrow> 'p image \<times> 'p page \<Rightarrow> 'p image \<times> 'p page" where
  "onLoad h (DemoOnLoad k) (im, w) =
     (let im' = im\<lparr>listeners := remove1 (DemoOnLoad k) (listeners im)\<rparr>
      in case compareImage h (the_tester w) im' of
           (Inl e, t') \<Rightarrow> (im', w\<lparr>the_tester := t'\<rparr>)
         | (Inr v, t') \<Rightarrow> (im', w\<lparr>the_tester := t', promises := resolve k v (promises w)\<rparr>))"
| "onLoad h (PopupOnLoad k) (im, w) =
     (let im' = im\<lparr>listeners := remove1 (PopupOnLoad k) (listeners im)\<rparr>
      in case testImage h (the_tester w) im' of
           (Inl e, t') \<Rightarrow> (im', w\<lparr>the_tester := t'\<rparr>)
         | (Inr v, t') \<Rightarrow> (im', w\<lparr>the_tester := t', promises := resolve k v (promises w)\<rparr>))"

text \<open>
  The host fires \<open>load\<close> on an element: the decoded bitmap of its \<open>src\<close> is in
  place, and the listeners registered at that moment run in order of registration.
  Nothing happens when the host never fires the event.
\<close>

definition load_event :: "'p host \<Rightarrow> 'p image \<Rightarrow> 'p page \<Rightarrow> 'p image \<times> 'p page" where
  "load_event h im w =
     (case load h (src im) of
        None \<Rightarrow> (im, w)
      | Some bmp \<Rightarrow> fold (onLoad h) (listeners im) (im\<lparr>img_state := Loaded bmp\<rparr>, w))"

section \<open>Collecting domains from the bookmark tree (getDomains)\<close>

text \<open>
  A \<open>BookmarkTreeNode\<close> as the code reads it: an optional \<open>url\<close> and an
  optional array of \<open>children\<close>. A string is truthy when it is defined and not
  empty; an array is truthy when it is defined.
\<close>

datatype bookmark = BookmarkTreeNode (url: "string option") (children: "bookmark list option")

definition truthy :: "string option \<Rightarrow> bool" where
  "truthy v = (case v of None \<Rightarrow> False | Some s \<Rightarrow> s \<noteq> '''')"

text \<open>
  The \<open>Set\<close> of domains keeps insertion order, which is the order of
  \<open>Array.from\<close>: a list without repetition, with \<open>add\<close> appending a new
  element.
\<close>

definition Set_add :: "string \<Rightarrow> string list \<Rightarrow> string list" where
  "Set_add x xs = (if x \<in> set xs then xs else xs @ [x])"

text \<open>
  \<open>getDomains(bookmark, limit, _domains)\<close>. The set is shared by all recursive calls,
  so the model returns it; \<open>new URL\<close> throwing TypeError ends the whole call. The
  second function is the \<open>for ... of bookmark.children\<close> loop.
\<close>

fun getDomains :: "'p host \<Rightarrow> bookmark \<Rightarrow> nat \<Rightarrow> string list \<Rightarrow> error + string list"
  and getDomains_loop :: "'p host \<Rightarrow> bookmark list \<Rightarrow> nat \<Rightarrow> string list \<Rightarrow> error + string list"
where
  "getDomains h (BookmarkTreeNode u cs) limit domains =
     (if length domains \<ge> limit then Inr domains
      else if truthy u then
        (if length domains < limit then
           (case parse_url h (the u) of
              None \<Rightarrow> Inl TypeError
            | Some parsed \<Rightarrow>
                if protocol parsed = ''https:'' then Inr (Set_add (hostname parsed) domains)
                else Inr domains)
         else Inr domains)
      else
        (case cs of
           Some bs \<Rightarrow> getDomains_loop h bs limit domains
         | None \<Rightarrow> Inr domains))"
| "getDomains_loop h [] limit domains = Inr domains"
| "getDomains_loop h (b # bs) limit domains =
     (case getDomains h b limit domains of
        Inl e \<Rightarrow> Inl e
      | Inr domains' \<Rightarrow> getDomains_loop h bs limit domains')"

text \<open>
  What the claims about \<open>getDomains\<close> speak of: the URLs of the bookmarks of a tree
  in depth-first order (a node with a URL is a bookmark, a node without one is a
  folder), and the hostnames of those with the HTTPS scheme.
\<close>

fun bookmark_urls :: "bookmark \<Rightarrow> string list"
  and bookmark_urls_list :: "bookmark list \<Rightarrow> string list"
where
  "bookmark_urls (BookmarkTreeNode u cs) =
     (if truthy u then [the u]
      else (case cs of Some bs \<Rightarrow> bookmark_urls_list bs | None \<Rightarrow> []))"
| "bookmark_urls_list [] = []"
| "bookmark_urls_list (b # bs) = bookmark_urls b @ bookmark_urls_list bs"

definition valid_url :: "'p host \<Rightarrow> string \<Rightarrow> bool" where
  "valid_url h s = (case parse_url h s of None \<Rightarrow> False | Some _ \<Rightarrow> True)"

definition https_hostname :: "'p host \<Rightarrow> string \<Rightarrow> string option" where
  "https_hostname h s =
     (case parse_url h s of
        None \<Rightarrow> None
      | Some parsed \<Rightarrow> if protocol parsed = ''https:'' then Some (hostname parsed) else None)"

definition https_hostnames :: "'p host \<Rightarrow> bookmark \<Rightarrow> string list" where
  "https_hostnames h b = List.map_filter (https_hostname h) (bookmark_urls b)"

section \<open>Recovering a favicon through a background tab (fetchFavIcon)\<close>

text \<open>
  The state of one call: the tab it created, whether \<open>onUpdated\<close> is subscribed,
  whether the timer is pending, the promise, and how often each of the three teardown
  calls of \<open>finish\<close> has run.
\<close>

record recovery =
  tab :: "nat option"
  tab_url :: string
  delay :: nat
  listening :: bool
  timer_pending :: bool
  outcome :: "string promise"
  removeListener_calls :: nat
  tabs_remove_calls :: nat
  clearTimeout_calls :: nat

text \<open>
  \<open>finish(favIconUrl = '')\<close>: the argument is absent when the timer calls it. A
  promise resolves once; later calls of \<open>resolve\<close> do nothing.
\<close>

definition finish :: "string option \<Rightarrow> recovery \<Rightarrow> recovery" where
  "finish arg r =
     (let favIconUrl = (case arg of None \<Rightarrow> '''' | Some s \<Rightarrow> s)
      in r\<lparr>listening := False,
            removeListener_calls := removeListener_calls r + 1,
            tabs_remove_calls := tabs_remove_calls r + 1,
            timer_pending := False,
            clearTimeout_calls := clearTimeout_calls r + 1,
            outcome := (case outcome r of Pending \<Rightarrow> Fulfilled favIconUrl | p \<Rightarrow> p)\<rparr>)"

text \<open>\<open>onUpdated(tabId, info, tab)\<close> reads \<open>tabId\<close> and \<open>tab.favIconUrl\<close>.\<close>

definition onUpdated :: "nat \<Rightarrow> string option \<Rightarrow> recovery \<Rightarrow> recovery" where
  "onUpdated tabId favIconUrl r =
     (if Some tabId = tab r \<and> truthy favIconUrl then finish favIconUrl r else r)"

text \<open>
  \<open>fetchFavIcon(domain, timeout)\<close> up to the end of the promise executor, given the
  result of \<open>chrome.tabs.create\<close>. When that call rejects, the executor stops at the
  \<open>await\<close>: nothing is subscribed and the promise stays pending.
\<close>

definition fetchFavIcon :: "error + nat \<Rightarrow> string \<Rightarrow> nat \<Rightarrow> recovery" where
  "fetchFavIcon created domain timeout =
     (case created of
        Inl e \<Rightarrow>
          \<lparr>tab = None, tab_url = ''https://'' @ domain, delay = timeout,
           listening = False, timer_pending = False, outcome = Pending,
           removeListener_calls = 0, tabs_remove_calls = 0, clearTimeout_calls = 0\<rparr>
      | Inr tabId \<Rightarrow>
          \<lparr>tab = Some tabId, tab_url = ''https://'' @ domain, delay = timeout,
           listening = True, timer_pending = True, outcome = Pending,
           removeListener_calls = 0, tabs_remove_calls = 0, clearTimeout_calls = 0\<rparr>)"

text \<open>
  What the host's event loop delivers afterwards, one task at a time.
  \<open>Updated tabId favIconUrl\<close> is an event of \<open>chrome.tabs.onUpdated\<close> with its
  \<open>tabId\<close> and the \<open>favIconUrl\<close> of its \<open>tab\<close> argument (\<open>None\<close>: undefined);
  it goes to \<open>onUpdated\<close> while that is subscribed. \<open>TimerFired\<close> is the timer task:
  it calls \<open>finish()\<close> unless the timer has been cleared or has fired before. The order
  of the list is the order of delivery; the delay of the timer decides only where the
  host places \<open>TimerFired\<close>.
\<close>

datatype tab_event = Updated nat "string option" | TimerFired

fun deliver :: "tab_event \<Rightarrow> recovery \<Rightarrow> recovery" where
  "deliver (Updated tabId favIconUrl) r =
     (if listening r then onUpdated tabId favIconUrl r else r)"
| "deliver TimerFired r =
     (if timer_pending r then finish None (r\<lparr>timer_pending := False\<rparr>) else r)"

definition run :: "tab_event list \<Rightarrow> recovery \<Rightarrow> recovery" where
  "run evs r = fold deliver evs r"

text \<open>An update that \<open>onUpdated\<close> accepts for tab \<open>n\<close>.\<close>

fun discovers :: "nat \<Rightarrow> tab_event \<Rightarrow> bool" where
  "discovers n (Updated tabId favIconUrl) = (tabId = n \<and> truthy favIconUrl)"
| "discovers n TimerFired = False"

section \<open>Notions used in the statements\<close>

text \<open>
  The canvas after \<open>clearRect\<close> over its whole area, and the canvas after an image
  bitmap has then been drawn at the origin.
\<close>

definition cleared :: "'p host \<Rightarrow> 'p canvas \<Rightarrow> 'p canvas" where
  "cleared h c = c\<lparr>bitmap := replicate (height c) (replicate (width c) (blank h))\<rparr>"

definition drawn :: "'p host \<Rightarrow> 'p canvas \<Rightarrow> 'p list list \<Rightarrow> 'p canvas" where
  "drawn h c bmp =
     c\<lparr>bitmap := map (\<lambda>j. map (\<lambda>i. case pixel_at bmp i j of
                                       None \<Rightarrow> blank h
                                     | Some s \<Rightarrow> over h s (blank h))
                               [0..<width c])
                     [0..<height c]\<rparr>"

text \<open>
  Adding the hostnames of a list to the set one after the other, each only while the
  set is below the limit.
\<close>

definition add_limited :: "nat \<Rightarrow> string \<Rightarrow> string list \<Rightarrow> string list" where
  "add_limited limit x domains = (if length domains < limit then Set_add x domains else domains)"

definition collect :: "nat \<Rightarrow> string list \<Rightarrow> string list \<Rightarrow> string list" where
  "collect limit xs domains = fold (add_limited limit) xs domains"

text \<open>Each of the three teardown calls of \<open>finish\<close> has run \<open>k\<close> times.\<close>

definition torn_down :: "nat \<Rightarrow> recovery \<Rightarrow> bool" where
  "torn_down k r =
     (removeListener_calls r = k \<and> tabs_remove_calls r = k \<and> clearTimeout_calls r = k)"

text \<open>How the value or exception of an async function settles its promise.\<close>

definition settle :: "error + 'a \<Rightarrow> 'a promise" where
  "settle r = (case r of Inl e \<Rightarrow> Rejected e | Inr v \<Rightarrow> Fulfilled v)"

text \<open>
  \<open>document.createElement('img')\<close> followed by the assignment of \<open>src\<close>, as the main
  loop of both files does before it classifies: the element is still loading.
\<close>

definition new_image :: "string \<Rightarrow> 'p image" where
  "new_image u = \<lparr>src = u, img_state = Loading, listeners = []\<rparr>"

section \<open>A small host for evaluating the definitions\<close>

text \<open>
  Pixels are numbers, an image pixel replaces the canvas pixel, the encoder writes the
  rows out in decimal, and the parser covers lower-case URLs of the shape
  \<open>scheme://host/path\<close> without credentials or port. Icons are two pixels wide and
  high; the request for the empty domain and any other request without an entry load
  the placeholder bitmap.
\<close>

definition sample_encode :: "nat list list \<Rightarrow> string" where
  "sample_encode rows = concat (map (\<lambda>r. concat (map (\<lambda>p. String p @ '','') r) @ '';'') rows)"

definition sample_parse_url :: "string \<Rightarrow> parsed_url option" where
  "sample_parse_url s =
     (let scheme = takeWhile (\<lambda>c. c \<noteq> CHR '':'') s;
          rest = drop (length scheme + 1) s
      in if scheme = '''' \<or> length scheme = length s then None
         else if take 2 rest = ''//'' then
           Some \<lparr>protocol = scheme @ '':'',
                 hostname = takeWhile (\<lambda>c. c \<noteq> CHR ''/'' \<and> c \<noteq> CHR ''?'' \<and> c \<noteq> CHR ''#'')
                              (drop 2 rest)\<rparr>
         else Some \<lparr>protocol = scheme @ '':'', hostname = ''''\<rparr>)"

definition sample_load :: "string \<Rightarrow> nat list list option" where
  "sample_load u =
     (if u = ''chrome-extension://EXTENSION_ID/_favicon/?pageUrl=https%3A%2F%2Fa.com&size=2''
        then Some [[1, 2], [3, 4]]
      else if u = ''chrome-extension://EXTENSION_ID/_favicon/?pageUrl=https%3A%2F%2Fc.com&size=2''
        then Some [[5, 6], [7, 8]]
      else Some [[9, 9], [9, 9]])"

definition sample_host :: "nat host" where
  "sample_host =
     \<lparr>blank = 0, over = (\<lambda>s d. s), png_base64 = sample_encode,
      extension_id = ''EXTENSION_ID'', load = sample_load, parse_url = sample_parse_url\<rparr>"

text \<open>
  Two icons with different pixels, both different from the placeholder, already loaded;
  the icon of a domain that the host answers with the placeholder bitmap, already
  loaded; and the testers that \<open>init\<close> of the demo and of the popup produce under the sample
  host for size 2 (lemmas \<open>sample_demo_init\<close> and \<open>sample_popup_init\<close>).
\<close>

definition sample_icon_a :: "nat image" where
  "sample_icon_a =
     \<lparr>src = ''chrome-extension://EXTENSION_ID/_favicon/?pageUrl=https%3A%2F%2Fa.com&size=2'',
      img_state = Loaded [[1, 2], [3, 4]], listeners = []\<rparr>"

definition sample_icon_c :: "nat image" where
  "sample_icon_c =
     \<lparr>src = ''chrome-extension://EXTENSION_ID/_favicon/?pageUrl=https%3A%2F%2Fc.com&size=2'',
      img_state = Loaded [[5, 6], [7, 8]], listeners = []\<rparr>"

definition sample_icon_x :: "nat image" where
  "sample_icon_x =
     \<lparr>src = ''chrome-extension://EXTENSION_ID/_favicon/?pageUrl=https%3A%2F%2Fx.org&size=2'',
      img_state = Loaded [[9, 9], [9, 9]], listeners = []\<rparr>"

definition sample_demo_tester :: "nat tester" where
  "sample_demo_tester =
     \<lparr>icon_size = 2, canvas = \<lparr>width = 2, height = 2, bitmap = [[0, 0], [0, 0]]\<rparr>,
      missingData = Some ''data:image/png;base64,0,0,;0,0,;''\<rparr>"

definition sample_popup_tester :: "nat tester" where
  "sample_popup_tester =
     \<lparr>icon_size = 2, canvas = \<lparr>width = 2, height = 2, bitmap = [[9, 9], [9, 9]]\<rparr>,
      missingData = Some ''data:image/png;base64,9,9,;9,9,;''\<rparr>"

definition sample_tree :: bookmark where
  "sample_tree =
     BookmarkTreeNode None (Some
       [BookmarkTreeNode (Some ''https://a.com'') None,
        BookmarkTreeNode None (Some
          [BookmarkTreeNode (Some ''https://a.com/page2'') None,
           BookmarkTreeNode (Some ''http://b.com'') None]),
        BookmarkTreeNode (Some ''https://c.com'') None])"

section \<open>Basic facts about the canvas and the two variants\<close>

lemma canvas_pixel_replicate:
  "i < w \<Longrightarrow> j < ht \<Longrightarrow> canvas_pixel h (c\<lparr>bitmap := replicate ht (replicate w p)\<rparr>) i j = p"
  by (simp add: canvas_pixel_def pixel_at_def)

lemma map_upt_eq_replicate:
  assumes "\<And>i. i < n \<Longrightarrow> f i = k"
  shows "map f [0..<n] = replicate n k"
proof -
  have "map f [0..<n] = map (\<lambda>_. k) [0..<n]"
    by (rule map_cong) (simp_all add: assms)
  then show ?thesis by (simp add: map_replicate_const)
qed

lemma grid_eq_replicate:
  assumes "\<And>i j. i < w \<Longrightarrow> j < ht \<Longrightarrow> f i j = k"
  shows "map (\<lambda>j. map (\<lambda>i. f i j) [0..<w]) [0..<ht] = replicate ht (replicate w k)"
proof (rule map_upt_eq_replicate)
  fix j assume "j < ht"
  then show "map (\<lambda>i. f i j) [0..<w] = replicate w k"
    by (intro map_upt_eq_replicate assms)
qed

lemma grid_cong:
  assumes "\<And>i j. i < w \<Longrightarrow> j < ht \<Longrightarrow> f i j = g i j"
  shows "map (\<lambda>j. map (\<lambda>i. f i j) [0..<w]) [0..<ht] = map (\<lambda>j. map (\<lambda>i. g i j) [0..<w]) [0..<ht]"
  by (intro map_cong refl) (simp add: assms)

lemma clearRect_full: "clearRect h c 0 0 (width c) (height c) = cleared h c"
  unfolding clearRect_def cleared_def
  by (subst grid_eq_replicate [where k = "blank h"]) simp_all

lemma cleared_simps [simp]:
  "width (cleared h c) = width c" "height (cleared h c) = height c"
  "cleared h (cleared h c) = cleared h c"
  "width (drawn h c bmp) = width c" "height (drawn h c bmp) = height c"
  "cleared h (drawn h c bmp) = cleared h c"
  "drawn h (cleared h c) bmp = drawn h c bmp"
  "drawn h (drawn h c bmp') bmp = drawn h c bmp"
  by (simp_all add: cleared_def drawn_def)

lemma drawImage_off_canvas:
  assumes "img_state im = Loaded bmp"
  shows "drawImage h (cleared h c) im (width c) 0 = Inr (cleared h c)"
proof -
  have "map (\<lambda>j. map (\<lambda>i. case source_pixel bmp (width c) 0 i j of
                 None \<Rightarrow> canvas_pixel h (cleared h c) i j
               | Some s \<Rightarrow> over h s (canvas_pixel h (cleared h c) i j)) [0..<width c]) [0..<height c]
      = replicate (height c) (replicate (width c) (blank h))"
    by (rule grid_eq_replicate) (simp add: source_pixel_def cleared_def canvas_pixel_replicate)
  then show ?thesis using assms
    by (simp add: drawImage_def) (simp add: cleared_def)
qed

lemma drawImage_at_origin:
  assumes "img_state im = Loaded bmp"
  shows "drawImage h (cleared h c) im 0 0 = Inr (drawn h c bmp)"
proof -
  have "map (\<lambda>j. map (\<lambda>i. case source_pixel bmp 0 0 i j of
                 None \<Rightarrow> canvas_pixel h (cleared h c) i j
               | Some s \<Rightarrow> over h s (canvas_pixel h (cleared h c) i j)) [0..<width c]) [0..<height c]
      = map (\<lambda>j. map (\<lambda>i. case pixel_at bmp i j of
                                       None \<Rightarrow> blank h
                                     | Some s \<Rightarrow> over h s (blank h))
                               [0..<width c])
                     [0..<height c]"
    by (rule grid_cong) (simp add: source_pixel_def cleared_def canvas_pixel_replicate split: option.splits)
  then show ?thesis using assms
    by (simp add: drawImage_def) (simp add: cleared_def drawn_def)
qed

lemma demo_getDataUrl_eq:
  "demo_getDataUrl h t im =
     (if img_state im = Broken then (Inl InvalidStateError, t\<lparr>canvas := cleared h (canvas t)\<rparr>)
      else (Inr (toDataURL h (cleared h (canvas t))), t\<lparr>canvas := cleared h (canvas t)\<rparr>))"
proof (cases "img_state im")
  case Loading
  then show ?thesis by (simp add: demo_getDataUrl_def clearRect_full drawImage_def Let_def)
next
  case (Loaded bmp)
  then show ?thesis
    using drawImage_off_canvas [OF Loaded, of h "canvas t"]
    by (simp add: demo_getDataUrl_def clearRect_full Let_def)
next
  case Broken
  then show ?thesis by (simp add: demo_getDataUrl_def clearRect_full drawImage_def Let_def)
qed

lemma popup_getDataUrl_eq:
  "popup_getDataUrl h t im =
     (case img_state im of
        Broken \<Rightarrow> (Inl InvalidStateError, t\<lparr>canvas := cleared h (canvas t)\<rparr>)
      | Loading \<Rightarrow> (Inr (toDataURL h (cleared h (canvas t))), t\<lparr>canvas := cleared h (canvas t)\<rparr>)
      | Loaded bmp \<Rightarrow> (Inr (toDataURL h (drawn h (canvas t) bmp)), t\<lparr>canvas := drawn h (canvas t) bmp\<rparr>))"
proof (cases "img_state im")
  case Loading
  then show ?thesis by (simp add: popup_getDataUrl_def clearRect_full drawImage_def Let_def)
next
  case (Loaded bmp)
  then show ?thesis
    using drawImage_at_origin [OF Loaded, of h "canvas t"]
    by (simp add: popup_getDataUrl_def clearRect_full Let_def)
next
  case Broken
  then show ?thesis by (simp add: popup_getDataUrl_def clearRect_full drawImage_def Let_def)
qed

lemma compareImage_eq:
  "compareImage h t im =
     (if img_state im = Broken then (Inl InvalidStateError, t\<lparr>canvas := cleared h (canvas t)\<rparr>)
      else (Inr (Some (toDataURL h (cleared h (canvas t))) = missingData t),
            t\<lparr>canvas := cleared h (canvas t)\<rparr>))"
  by (simp add: compareImage_def demo_getDataUrl_eq)

lemma testImage_eq:
  "testImage h t im =
     (case img_state im of
        Broken \<Rightarrow> (Inl InvalidStateError, t\<lparr>canvas := cleared h (canvas t)\<rparr>)
      | Loading \<Rightarrow> (Inr (Some (toDataURL h (cleared h (canvas t))) = missingData t),
                    t\<lparr>canvas := cleared h (canvas t)\<rparr>)
      | Loaded bmp \<Rightarrow> (Inr (Some (toDataURL h (drawn h (canvas t) bmp)) = missingData t),
                       t\<lparr>canvas := drawn h (canvas t) bmp\<rparr>))"
  by (simp add: testImage_def popup_getDataUrl_eq split: img_state.splits)

lemma toDataURL_nonempty: "toDataURL h c \<noteq> ''''"
  by (simp add: toDataURL_def)

lemma demo_init_eq:
  "demo_init h t =
     (case load h (getIconUrl h t '''') of
        None \<Rightarrow> None
      | Some bmp \<Rightarrow> Some (Inr (t\<lparr>canvas := cleared h (canvas t),
                                 missingData := Some (toDataURL h (cleared h (canvas t)))\<rparr>)))"
  by (simp add: demo_init_def loadImage_def demo_getDataUrl_eq split: option.splits)

lemma popup_init_eq:
  "popup_init h t =
     (case load h (getIconUrl h t '''') of
        None \<Rightarrow> None
      | Some bmp \<Rightarrow> Some (Inr (t\<lparr>canvas := drawn h (canvas t) bmp,
                                 missingData := Some (toDataURL h (drawn h (canvas t) bmp))\<rparr>)))"
  by (simp add: popup_init_def loadImage_def popup_getDataUrl_eq split: option.splits)


lemma resolve_last: "resolve (length ps) v (ps @ [Pending]) = ps @ [Fulfilled v]"
  by (simp add: resolve_def)

lemma testIcon_complete:
  "complete im \<Longrightarrow> testIcon h im w =
     (im, w\<lparr>the_tester := (the_tester w)\<lparr>canvas := cleared h (canvas (the_tester w))\<rparr>,
           promises := promises w @
             [if img_state im = Broken then Rejected InvalidStateError
              else Fulfilled (Some (toDataURL h (cleared h (canvas (the_tester w))))
                                = missingData (the_tester w))]\<rparr>)"
  by (simp add: testIcon_def compareImage_eq)

lemma testIcon_loading:
  "\<not> complete im \<Longrightarrow> testIcon h im w =
     (im\<lparr>listeners := listeners im @ [DemoOnLoad (length (promises w))]\<rparr>,
      w\<lparr>promises := promises w @ [Pending]\<rparr>)"
  by (simp add: testIcon_def)

lemma onLoad_demo_fires:
  assumes "img_state im = Loaded bmp" "k < length (promises w)" "promises w ! k = Pending"
  shows "onLoad h (DemoOnLoad k) (im, w) =
     (im\<lparr>listeners := remove1 (DemoOnLoad k) (listeners im)\<rparr>,
      w\<lparr>the_tester := (the_tester w)\<lparr>canvas := cleared h (canvas (the_tester w))\<rparr>,
        promises := (promises w)[k := Fulfilled (Some (toDataURL h (cleared h (canvas (the_tester w))))
                                = missingData (the_tester w))]\<rparr>)"
  using assms by (simp add: compareImage_eq resolve_def)

lemma onLoad_popup_fires:
  assumes "img_state im = Loaded bmp" "k < length (promises w)" "promises w ! k = Pending"
  shows "onLoad h (PopupOnLoad k) (im, w) =
     (im\<lparr>listeners := remove1 (PopupOnLoad k) (listeners im)\<rparr>,
      w\<lparr>the_tester := (the_tester w)\<lparr>canvas := drawn h (canvas (the_tester w)) bmp\<rparr>,
        promises := (promises w)[k := Fulfilled (Some (toDataURL h (drawn h (canvas (the_tester w)) bmp))
                                = missingData (the_tester w))]\<rparr>)"
  using assms by (simp add: testImage_eq resolve_def)

lemma demo_fresh_image:
  assumes "load h u = Some bmp"
  shows "(case testIcon h (new_image u) w of (im1, w1) \<Rightarrow> load_event h im1 w1) =
     (\<lparr>src = u, img_state = Loaded bmp, listeners = []\<rparr>,
      w\<lparr>the_tester := (the_tester w)\<lparr>canvas := cleared h (canvas (the_tester w))\<rparr>,
        promises := promises w @
          [Fulfilled (Some (toDataURL h (cleared h (canvas (the_tester w)))) = missingData (the_tester w))]\<rparr>)"
  using assms
  by (simp add: testIcon_def complete_def new_image_def load_event_def compareImage_eq resolve_last)

lemma popup_fresh_image:
  assumes "load h u = Some bmp"
  shows "(case initIcon h (new_image u) w of (im1, w1) \<Rightarrow> load_event h im1 w1) =
     (\<lparr>src = u, img_state = Loaded bmp, listeners = []\<rparr>,
      w\<lparr>the_tester := (the_tester w)\<lparr>canvas := drawn h (canvas (the_tester w)) bmp\<rparr>,
        promises := promises w @
          [Fulfilled (Some (toDataURL h (drawn h (canvas (the_tester w)) bmp)) = missingData (the_tester w))]\<rparr>)"
  using assms
  by (simp add: initIcon_def new_image_def load_event_def testImage_eq resolve_last)

lemma init_keeps_url:
  "demo_init h t = Some (Inr td) \<Longrightarrow> getIconUrl h td d = getIconUrl h t d"
  "popup_init h t = Some (Inr tp) \<Longrightarrow> getIconUrl h tp d = getIconUrl h t d"
  by (auto simp: demo_init_eq popup_init_eq getIconUrl_def split: option.splits)

lemma demo_always_missing:
  assumes "demo_init h t = Some (Inr td)" "img_state im \<noteq> Broken"
  shows "fst (compareImage h td im) = Inr True"
  using assms by (auto simp: demo_init_eq compareImage_eq split: option.splits)

lemma popup_tells_apart:
  assumes "popup_init h t = Some (Inr tp)" "load h (getIconUrl h t '''') = Some pb"
    "img_state im = Loaded bmp"
    "toDataURL h (drawn h (canvas t) bmp) \<noteq> toDataURL h (drawn h (canvas t) pb)"
  shows "fst (testImage h tp im) = Inr False"
  using assms by (auto simp: popup_init_eq testImage_eq split: option.splits)

lemma sample_demo_init:
  "demo_init sample_host (makeIconTester sample_host 2) = Some (Inr sample_demo_tester)"
  by code_simp

lemma sample_popup_init:
  "popup_init sample_host (makeIconLoader sample_host 2) = Some (Inr sample_popup_tester)"
  by code_simp

lemma getIconUrl_example:
  "getIconUrl sample_host (makeIconTester sample_host 32) ''www.google.com''
     = ''chrome-extension://EXTENSION_ID/_favicon/?pageUrl=https%3A%2F%2Fwww.google.com&size=32''"
  by code_simp

lemma compareImage_listeners:
  "compareImage h t (im\<lparr>listeners := ls\<rparr>) = compareImage h t im"
  "testImage h t (im\<lparr>listeners := ls\<rparr>) = testImage h t im"
  by (simp_all add: compareImage_eq testImage_eq)

section \<open>Basic facts about the recovery\<close>

lemma run_simps [simp]:
  "run [] r = r" "run (e # evs) r = run evs (deliver e r)" "run (xs @ ys) r = run ys (run xs r)"
  by (simp_all add: run_def)

lemma deliver_idle: "\<not> listening r \<Longrightarrow> \<not> timer_pending r \<Longrightarrow> deliver e r = r"
  by (cases e) simp_all

lemma run_idle: "\<not> listening r \<Longrightarrow> \<not> timer_pending r \<Longrightarrow> run evs r = r"
  by (induction evs) (simp_all add: deliver_idle)

lemma finish_idle [simp]:
  "\<not> listening (finish arg r)" "\<not> timer_pending (finish arg r)"
  by (simp_all add: finish_def)

lemma deliver_other:
  "tab r = Some n \<Longrightarrow> \<not> discovers n e \<Longrightarrow> e \<noteq> TimerFired \<Longrightarrow> deliver e r = r"
  by (cases e) (auto simp: onUpdated_def)

lemma run_others:
  "tab r = Some n \<Longrightarrow> \<forall>e\<in>set evs. \<not> discovers n e \<and> e \<noteq> TimerFired \<Longrightarrow> run evs r = r"
  by (induction evs) (simp_all add: deliver_other)

text \<open>Without a discovering update, the call is untouched or has timed out.\<close>

lemma run_no_discovery:
  assumes "\<forall>e\<in>set evs. \<not> discovers n e"
  shows "run evs (fetchFavIcon (Inr n) domain timeout) = fetchFavIcon (Inr n) domain timeout
       \<or> run evs (fetchFavIcon (Inr n) domain timeout)
           = finish None ((fetchFavIcon (Inr n) domain timeout)\<lparr>timer_pending := False\<rparr>)"
  using assms
proof (induction evs rule: rev_induct)
  case Nil
  then show ?case by simp
next
  case (snoc e evs)
  let ?r0 = "fetchFavIcon (Inr n) domain timeout"
  from snoc have e: "\<not> discovers n e"
    by simp
  from snoc have "run evs ?r0 = ?r0 \<or> run evs ?r0 = finish None (?r0\<lparr>timer_pending := False\<rparr>)"
    by simp
  then show ?case
  proof
    assume u: "run evs ?r0 = ?r0"
    show ?thesis
    proof (cases "e = TimerFired")
      case True
      have "timer_pending ?r0" by (simp add: fetchFavIcon_def)
      with True show ?thesis by (simp add: u)
    next
      case False
      have "tab ?r0 = Some n" by (simp add: fetchFavIcon_def)
      then have "deliver e ?r0 = ?r0" using e False by (rule deliver_other)
      then show ?thesis by (simp add: u)
    qed
  next
    assume "run evs ?r0 = finish None (?r0\<lparr>timer_pending := False\<rparr>)"
    then show ?thesis by (simp add: deliver_idle)
  qed
qed

lemma deliver_teardown:
  assumes "(outcome r = Pending \<and> torn_down 0 r)
         \<or> (outcome r \<noteq> Pending \<and> torn_down 1 r \<and> \<not> listening r \<and> \<not> timer_pending r)"
  shows "(outcome (deliver e r) = Pending \<and> torn_down 0 (deliver e r))
         \<or> (outcome (deliver e r) \<noteq> Pending \<and> torn_down 1 (deliver e r)
             \<and> \<not> listening (deliver e r) \<and> \<not> timer_pending (deliver e r))"
  using assms
  by (cases e) (auto simp: onUpdated_def finish_def torn_down_def)

lemma run_teardown:
  assumes "(outcome r = Pending \<and> torn_down 0 r)
         \<or> (outcome r \<noteq> Pending \<and> torn_down 1 r \<and> \<not> listening r \<and> \<not> timer_pending r)"
  shows "(outcome (run evs r) = Pending \<and> torn_down 0 (run evs r))
         \<or> (outcome (run evs r) \<noteq> Pending \<and> torn_down 1 (run evs r)
             \<and> \<not> listening (run evs r) \<and> \<not> timer_pending (run evs r))"
  using assms
proof (induction evs arbitrary: r)
  case Nil
  then show ?case by simp
next
  case (Cons e evs)
  from Cons.prems have "(outcome (deliver e r) = Pending \<and> torn_down 0 (deliver e r))
         \<or> (outcome (deliver e r) \<noteq> Pending \<and> torn_down 1 (deliver e r)
             \<and> \<not> listening (deliver e r) \<and> \<not> timer_pending (deliver e r))"
    by (rule deliver_teardown)
  then show ?case
    using Cons.IH [of "deliver e r"] by simp
qed

lemma run_completes:
  assumes "e \<in> set evs" "e = TimerFired \<or> discovers n e"
  shows "outcome (run evs (fetchFavIcon (Inr n) domain timeout)) \<noteq> Pending"
proof -
  let ?r0 = "fetchFavIcon (Inr n) domain timeout"
  have step: "outcome (deliver e r) \<noteq> Pending"
    if "outcome r \<noteq> Pending \<or> (listening r \<and> timer_pending r \<and> tab r = Some n)" for r
    using that assms(2)
    by (cases e) (auto simp: onUpdated_def finish_def split: promise.splits)
  have keep: "outcome (deliver e' r) \<noteq> Pending" if "outcome r \<noteq> Pending" for e' r
    using that by (cases e') (auto simp: onUpdated_def finish_def split: promise.splits)
  have keeps: "outcome (run es r) \<noteq> Pending" if "outcome r \<noteq> Pending" for es r
    using that by (induction es arbitrary: r) (simp_all add: keep)
  have inv: "outcome (run es ?r0) \<noteq> Pending
        \<or> (listening (run es ?r0) \<and> timer_pending (run es ?r0) \<and> tab (run es ?r0) = Some n)" for es
  proof (induction es rule: rev_induct)
    case Nil
    then show ?case by (simp add: fetchFavIcon_def)
  next
    case (snoc x xs)
    then show ?case
      by (cases x) (auto simp: onUpdated_def finish_def split: promise.splits)
  qed
  from assms(1) obtain xs ys where "evs = xs @ e # ys"
    by (auto simp: in_set_conv_decomp)
  then show ?thesis
    using step [OF inv [of xs]] by (simp add: keeps)
qed

section \<open>Basic facts about the collection of domains\<close>

lemma collect_simps [simp]:
  "collect limit [] domains = domains"
  "collect limit (x # xs) domains = collect limit xs (add_limited limit x domains)"
  "collect limit (xs @ ys) domains = collect limit ys (collect limit xs domains)"
  by (simp_all add: collect_def)

lemma collect_full: "limit \<le> length domains \<Longrightarrow> collect limit xs domains = domains"
  by (induction xs) (simp_all add: add_limited_def)

lemma map_filter_simps [simp]:
  "List.map_filter f [] = []"
  "List.map_filter f (x # xs) = (case f x of None \<Rightarrow> List.map_filter f xs | Some y \<Rightarrow> y # List.map_filter f xs)"
  "List.map_filter f (xs @ ys) = List.map_filter f xs @ List.map_filter f ys"
  by (simp_all add: List.map_filter_def split: option.splits)

lemma getDomains_collect:
  "list_all (valid_url h) (bookmark_urls b) \<Longrightarrow>
     getDomains h b limit domains
       = Inr (collect limit (List.map_filter (https_hostname h) (bookmark_urls b)) domains)"
  "list_all (valid_url h) (bookmark_urls_list bs) \<Longrightarrow>
     getDomains_loop h bs limit domains
       = Inr (collect limit (List.map_filter (https_hostname h) (bookmark_urls_list bs)) domains)"
proof (induction h b limit domains and h bs limit domains rule: getDomains_getDomains_loop.induct)
  case (1 h u cs limit domains)
  show ?case
  proof (cases "limit \<le> length domains")
    case True
    then show ?thesis by (simp add: collect_full)
  next
    case False
    show ?thesis
    proof (cases "truthy u")
      case True
      with False "1.prems" show ?thesis
        by (auto simp: valid_url_def https_hostname_def add_limited_def split: option.splits)
    next
      case nt: False
      show ?thesis
      proof (cases cs)
        case None
        with False nt show ?thesis by simp
      next
        case (Some bs)
        with False nt "1.prems" "1.IH" [of bs] show ?thesis by simp
      qed
    qed
  qed
next
  case (2 h limit domains)
  then show ?case by simp
next
  case (3 h b bs limit domains)
  then show ?case by simp
qed

lemma add_limited_props:
  assumes "distinct domains" "length domains \<le> limit"
  shows "distinct (add_limited limit x domains)"
    and "length (add_limited limit x domains) \<le> limit"
    and "set (add_limited limit x domains) \<subseteq> insert x (set domains)"
    and "set domains \<subseteq> set (add_limited limit x domains)"
    and "length (add_limited limit x domains) < limit \<Longrightarrow> x \<in> set (add_limited limit x domains)"
  using assms by (auto simp: add_limited_def Set_add_def)

lemma collect_props:
  assumes "distinct domains" "length domains \<le> limit"
  shows "distinct (collect limit xs domains)
       \<and> length (collect limit xs domains) \<le> limit
       \<and> set domains \<subseteq> set (collect limit xs domains)
       \<and> set (collect limit xs domains) \<subseteq> set domains \<union> set xs
       \<and> (length (collect limit xs domains) < limit \<longrightarrow>
            set (collect limit xs domains) = set domains \<union> set xs)"
  using assms
proof (induction xs arbitrary: domains)
  case Nil
  then show ?case by simp
next
  case (Cons x xs)
  let ?d = "add_limited limit x domains"
  note p = add_limited_props [OF Cons.prems, of x]
  note ih = Cons.IH [OF p(1) p(2)]
  have len: "length ?d \<le> length (collect limit xs ?d)"
    using ih p(1) by (metis card_mono distinct_card List.finite_set)
  show ?case
  proof (intro conjI impI)
    show "distinct (collect limit (x # xs) domains)" using ih by simp
    show "length (collect limit (x # xs) domains) \<le> limit" using ih by simp
    show "set domains \<subseteq> set (collect limit (x # xs) domains)" using ih p(4) by auto
    show "set (collect limit (x # xs) domains) \<subseteq> set domains \<union> set (x # xs)"
      using ih p(3) by auto
    assume "length (collect limit (x # xs) domains) < limit"
    then have lt: "length (collect limit xs ?d) < limit" by simp
    with len have "length ?d < limit" by simp
    then have "x \<in> set ?d" by (rule p(5))
    moreover from lt ih have "set (collect limit xs ?d) = set ?d \<union> set xs" by simp
    ultimately show "set (collect limit (x # xs) domains) = set domains \<union> set (x # xs)"
      using p(3) p(4) by auto
  qed
qed

lemma collect_length:
  "length (collect limit xs []) = (if limit < card (set xs) then limit else card (set xs))"
proof -
  note p = collect_props [of "[]" limit xs, simplified]
  let ?r = "collect limit xs []"
  have c: "card (set ?r) = length ?r" using p by (simp add: distinct_card)
  have le: "length ?r \<le> card (set xs)"
    using p c by (metis card_mono List.finite_set)
  show ?thesis
  proof (cases "length ?r < limit")
    case True
    with p have "set ?r = set xs" by simp
    with c True show ?thesis by auto
  next
    case False
    with p have "length ?r = limit" by simp
    with le show ?thesis by auto
  qed
qed


lemma sample_getDomains:
  "getDomains sample_host sample_tree 10 [] = Inr [''a.com'', ''c.com'']"
  by code_simp

lemma getDomains_invalid_url:
  "getDomains sample_host (BookmarkTreeNode (Some ''not a url'') None) 10 [] = Inl TypeError"
  by code_simp

text \<open>
  After calibration the two variants disagree on an icon that differs from the
  placeholder: the demo's sample is that of the cleared canvas whatever the image.
\<close>

lemma variants_differ_on_cached_icon:
  "promises (snd (case testIcon sample_host (new_image (src sample_icon_a))
                           \<lparr>the_tester = sample_demo_tester, promises = []\<rparr>
                    of (im2, w2) \<Rightarrow> load_event sample_host im2 w2)) = [Fulfilled True]"
  "promises (snd (case initIcon sample_host (new_image (src sample_icon_a))
                           \<lparr>the_tester = sample_popup_tester, promises = []\<rparr>
                    of (im2, w2) \<Rightarrow> load_event sample_host im2 w2)) = [Fulfilled False]"
  by code_simp+

section \<open>The claims\<close>

text \<open>
  C6. \<open>getIconUrl\<close> is deterministic. Its result is fixed by the domain, the size the
  tester was made with and the extension identifier: two calls with the same domain
  return the same string in any two states of a tester (whatever its canvas holds,
  calibrated or not), under any two hosts that agree on the extension identifier.
\<close>

theorem getIconUrl_deterministic:
  "icon_size t = icon_size t' \<Longrightarrow> extension_id h = extension_id h'
     \<Longrightarrow> getIconUrl h t domain = getIconUrl h' t' domain"
  by (simp add: getIconUrl_def runtime_getURL_def)

theorem getIconUrl_deterministic_witness:
  "icon_size (makeIconTester sample_host 32) = icon_size (makeIconLoader sample_host 32)
   \<and> extension_id sample_host = extension_id sample_host
   \<and> getIconUrl sample_host (makeIconTester sample_host 32) ''www.google.com''
       = getIconUrl sample_host (makeIconLoader sample_host 32) ''www.google.com''"
  using getIconUrl_deterministic [of "makeIconTester sample_host 32" "makeIconLoader sample_host 32"
      sample_host sample_host "''www.google.com''"]
  by (simp add: makeIconTester_def makeIconLoader_def)

text \<open>
  C10. Classifying a loaded image before \<open>init\<close> has run does not throw and gives the
  verdict false. In the demo \<open>missingData\<close> is still the empty string, in the popup it
  is still undefined, and the data URL of a canvas is never empty: \<open>compareImage\<close>
  and \<open>testImage\<close> return false, \<open>testIcon\<close> fulfils its promise with false at
  once, and the listener of \<open>initIcon\<close> fulfils its promise with false when it fires.
\<close>

theorem classify_before_init:
  assumes "img_state im = Loaded bmp"
  shows "(missingData td = Some '''' \<longrightarrow>
            fst (compareImage h td im) = Inr False
          \<and> promises (snd (testIcon h im \<lparr>the_tester = td, promises = ps\<rparr>)) = ps @ [Fulfilled False])
       \<and> (missingData tp = None \<longrightarrow>
            fst (testImage h tp im) = Inr False
          \<and> promises (snd (onLoad h (PopupOnLoad (length ps))
                 (initIcon h im \<lparr>the_tester = tp, promises = ps\<rparr>))) = ps @ [Fulfilled False])"
  using assms
  by (simp add: compareImage_eq testImage_eq testIcon_complete complete_def toDataURL_nonempty
        initIcon_def resolve_last)

theorem classify_before_init_witness:
  "img_state sample_icon_a = Loaded [[1, 2], [3, 4]]
   \<and> missingData (makeIconTester sample_host 2) = Some ''''
   \<and> missingData (makeIconLoader sample_host 2) = None
   \<and> fst (compareImage sample_host (makeIconTester sample_host 2) sample_icon_a) = Inr False
   \<and> promises (snd (testIcon sample_host sample_icon_a
        \<lparr>the_tester = makeIconTester sample_host 2, promises = []\<rparr>)) = [Fulfilled False]
   \<and> fst (testImage sample_host (makeIconLoader sample_host 2) sample_icon_a) = Inr False
   \<and> promises (snd (onLoad sample_host (PopupOnLoad 0)
        (initIcon sample_host sample_icon_a
           \<lparr>the_tester = makeIconLoader sample_host 2, promises = []\<rparr>))) = [Fulfilled False]"
  using classify_before_init [of sample_icon_a "[[1, 2], [3, 4]]" "makeIconTester sample_host 2"
      sample_host "[]" "makeIconLoader sample_host 2"]
  by (simp add: sample_icon_a_def makeIconTester_def makeIconLoader_def)

text \<open>
  C1. Two different, fully loaded icons, both different from the placeholder, should both
  be classified as not missing. The demo variant classifies both as missing: its
  \<open>getDataUrl\<close> draws at \<open>x = canvas.width\<close>, outside the canvas, so every sample is
  the sample of the cleared canvas and equals the stored one (lemma
  \<open>demo_always_missing\<close>). The popup variant draws at the origin and tells them apart
  (lemma \<open>popup_tells_apart\<close>). Evaluated on the sample host:
\<close>

theorem demo_reports_distinct_icons_missing:
  "demo_init sample_host (makeIconTester sample_host 2) = Some (Inr sample_demo_tester)
   \<and> load sample_host (getIconUrl sample_host (makeIconTester sample_host 2) '''') = Some [[9, 9], [9, 9]]
   \<and> img_state sample_icon_a = Loaded [[1, 2], [3, 4]]
   \<and> img_state sample_icon_c = Loaded [[5, 6], [7, 8]]
   \<and> promises (snd (testIcon sample_host sample_icon_c
          (snd (testIcon sample_host sample_icon_a
             \<lparr>the_tester = sample_demo_tester, promises = []\<rparr>))))
       = [Fulfilled True, Fulfilled True]"
proof -
  have "promises (snd (testIcon sample_host sample_icon_c
          (snd (testIcon sample_host sample_icon_a
             \<lparr>the_tester = sample_demo_tester, promises = []\<rparr>))))
       = [Fulfilled True, Fulfilled True]"
    by code_simp
  moreover have "load sample_host (getIconUrl sample_host (makeIconTester sample_host 2) '''')
       = Some [[9, 9], [9, 9]]"
    by code_simp
  ultimately show ?thesis
    by (simp add: sample_demo_init sample_icon_a_def sample_icon_c_def)
qed

text \<open>
  C7. After \<open>init\<close> has completed, an image loaded from the request for the empty
  domain is classified as missing, in both variants: by \<open>compareImage\<close> and
  \<open>testImage\<close> on the loaded element, by \<open>testIcon\<close> at once, and by \<open>testIcon\<close>
  and \<open>initIcon\<close> on a new element once its \<open>load\<close> event has fired. The host
  answers the same request with the same bitmap both times.
\<close>

theorem placeholder_request_is_missing:
  "(demo_init h t = Some (Inr td) \<longrightarrow>
      (loadImage h (getIconUrl h td '''') = Some im \<longrightarrow>
         fst (compareImage h td im) = Inr True
         \<and> promises (snd (testIcon h im \<lparr>the_tester = td, promises = ps\<rparr>)) = ps @ [Fulfilled True])
      \<and> promises (snd (case testIcon h (new_image (getIconUrl h td ''''))
                               \<lparr>the_tester = td, promises = ps\<rparr>
                        of (im1, w1) \<Rightarrow> load_event h im1 w1)) = ps @ [Fulfilled True])
   \<and> (popup_init h t' = Some (Inr tp) \<longrightarrow>
      (loadImage h (getIconUrl h tp '''') = Some im' \<longrightarrow>
         fst (testImage h tp im') = Inr True)
      \<and> promises (snd (case initIcon h (new_image (getIconUrl h tp ''''))
                               \<lparr>the_tester = tp, promises = ps'\<rparr>
                        of (im1, w1) \<Rightarrow> load_event h im1 w1)) = ps' @ [Fulfilled True])"
proof (intro conjI impI)
  assume d: "demo_init h t = Some (Inr td)"
  then obtain bmp where l: "load h (getIconUrl h t '''') = Some bmp"
    and td: "td = t\<lparr>canvas := cleared h (canvas t),
                       missingData := Some (toDataURL h (cleared h (canvas t)))\<rparr>"
    by (auto simp: demo_init_eq split: option.splits)
  have u: "getIconUrl h td '''' = getIconUrl h t ''''"
    using d by (rule init_keeps_url)
  show "promises (snd (case testIcon h (new_image (getIconUrl h td ''''))
                               \<lparr>the_tester = td, promises = ps\<rparr>
                        of (im1, w1) \<Rightarrow> load_event h im1 w1)) = ps @ [Fulfilled True]"
    using l by (simp add: u demo_fresh_image) (simp add: td)
  {
    assume "loadImage h (getIconUrl h td '''') = Some im"
    then have s: "img_state im = Loaded bmp"
      using l by (auto simp: u loadImage_def)
    then show "fst (compareImage h td im) = Inr True"
      by (simp add: compareImage_eq td)
    from s show "promises (snd (testIcon h im \<lparr>the_tester = td, promises = ps\<rparr>)) = ps @ [Fulfilled True]"
      by (simp add: testIcon_complete complete_def td)
  }
next
  assume p: "popup_init h t' = Some (Inr tp)"
  then obtain bmp where l: "load h (getIconUrl h t' '''') = Some bmp"
    and tp: "tp = t'\<lparr>canvas := drawn h (canvas t') bmp,
                        missingData := Some (toDataURL h (drawn h (canvas t') bmp))\<rparr>"
    by (auto simp: popup_init_eq split: option.splits)
  have u: "getIconUrl h tp '''' = getIconUrl h t' ''''"
    using p by (rule init_keeps_url)
  show "promises (snd (case initIcon h (new_image (getIconUrl h tp ''''))
                               \<lparr>the_tester = tp, promises = ps'\<rparr>
                        of (im1, w1) \<Rightarrow> load_event h im1 w1)) = ps' @ [Fulfilled True]"
    using l by (simp add: u popup_fresh_image) (simp add: tp)
  {
    assume "loadImage h (getIconUrl h tp '''') = Some im'"
    then have s: "img_state im' = Loaded bmp"
      using l by (auto simp: u loadImage_def)
    then show "fst (testImage h tp im') = Inr True"
      by (simp add: testImage_eq tp)
  }
qed

theorem placeholder_request_is_missing_witness:
  "demo_init sample_host (makeIconTester sample_host 2) = Some (Inr sample_demo_tester)
   \<and> loadImage sample_host (getIconUrl sample_host sample_demo_tester '''')
       = Some \<lparr>src = getIconUrl sample_host sample_demo_tester '''',
               img_state = Loaded [[9, 9], [9, 9]], listeners = []\<rparr>
   \<and> popup_init sample_host (makeIconLoader sample_host 2) = Some (Inr sample_popup_tester)
   \<and> loadImage sample_host (getIconUrl sample_host sample_popup_tester '''')
       = Some \<lparr>src = getIconUrl sample_host sample_popup_tester '''',
               img_state = Loaded [[9, 9], [9, 9]], listeners = []\<rparr>
   \<and> fst (compareImage sample_host sample_demo_tester
            \<lparr>src = getIconUrl sample_host sample_demo_tester '''',
             img_state = Loaded [[9, 9], [9, 9]], listeners = []\<rparr>) = Inr True
   \<and> fst (testImage sample_host sample_popup_tester
            \<lparr>src = getIconUrl sample_host sample_popup_tester '''',
             img_state = Loaded [[9, 9], [9, 9]], listeners = []\<rparr>) = Inr True
   \<and> promises (snd (case initIcon sample_host (new_image (getIconUrl sample_host sample_popup_tester ''''))
                            \<lparr>the_tester = sample_popup_tester, promises = []\<rparr>
                     of (im1, w1) \<Rightarrow> load_event sample_host im1 w1)) = [Fulfilled True]"
proof -
  have l: "load sample_host (getIconUrl sample_host sample_demo_tester '''') = Some [[9, 9], [9, 9]]"
    "load sample_host (getIconUrl sample_host sample_popup_tester '''') = Some [[9, 9], [9, 9]]"
    by code_simp+
  show ?thesis
    using placeholder_request_is_missing [of sample_host "makeIconTester sample_host 2"
        sample_demo_tester
        "\<lparr>src = getIconUrl sample_host sample_demo_tester '''',
          img_state = Loaded [[9, 9], [9, 9]], listeners = []\<rparr>"
        "[]" "makeIconLoader sample_host 2" sample_popup_tester
        "\<lparr>src = getIconUrl sample_host sample_popup_tester '''',
          img_state = Loaded [[9, 9], [9, 9]], listeners = []\<rparr>" "[]"]
    by (simp add: sample_demo_init sample_popup_init loadImage_def l)
qed

text \<open>
  C9. Classification is idempotent on an already loaded image: two calls of
  \<open>testIcon\<close> in sequence on a complete image, from any state of the tester, both
  settle at once, with the same result. The first call leaves the image as it was, and
  the canvas it leaves behind is cleared by the second call before it draws.
\<close>

theorem testIcon_twice_same_verdict:
  assumes "complete im"
  shows "\<exists>v. v \<noteq> Pending
           \<and> testIcon h im w = (im, (snd (testIcon h im w)))
           \<and> promises (snd (testIcon h im w)) = promises w @ [v]
           \<and> promises (snd (testIcon h im (snd (testIcon h im w)))) = promises w @ [v, v]"
  using assms by (simp add: testIcon_complete)

theorem testIcon_twice_same_verdict_witness:
  "complete sample_icon_a
   \<and> promises (snd (testIcon sample_host sample_icon_a
         (snd (testIcon sample_host sample_icon_a
            \<lparr>the_tester = sample_demo_tester, promises = []\<rparr>))))
       = [Fulfilled True, Fulfilled True]"
proof -
  have c: "complete sample_icon_a"
    by (simp add: complete_def sample_icon_a_def)
  have "promises (snd (testIcon sample_host sample_icon_a
          \<lparr>the_tester = sample_demo_tester, promises = []\<rparr>)) = [Fulfilled True]"
    by code_simp
  with c show ?thesis
    using testIcon_twice_same_verdict [OF c, of sample_host
        "\<lparr>the_tester = sample_demo_tester, promises = []\<rparr>"]
    by auto
qed

text \<open>
  C2, as the code has it. \<open>testIcon\<close> (demo): on a complete image it rasterises and
  compares at once and registers nothing; on an image that is still loading it registers
  one \<open>load\<close> listener and its promise stays pending. \<open>initIcon\<close> (popup) never
  looks at the load state: it registers one \<open>load\<close> listener on every image, also on
  a complete one. In both variants the listener, when it fires on the loaded image,
  first removes itself, then rasterises and compares, and resolves its promise with the
  verdict; for a new element whose \<open>load\<close> event fires after the call, no listener
  is left and the promise holds the verdict.
\<close>

theorem load_synchronisation:
  "(complete imc \<longrightarrow>
      testIcon h imc w =
        (imc, w\<lparr>the_tester := snd (compareImage h (the_tester w) imc),
                promises := promises w @ [settle (fst (compareImage h (the_tester w) imc))]\<rparr>))
   \<and> (\<not> complete iml \<longrightarrow>
      testIcon h iml w =
        (iml\<lparr>listeners := listeners iml @ [DemoOnLoad (length (promises w))]\<rparr>,
         w\<lparr>promises := promises w @ [Pending]\<rparr>))
   \<and> initIcon h im w =
        (im\<lparr>listeners := listeners im @ [PopupOnLoad (length (promises w))]\<rparr>,
         w\<lparr>promises := promises w @ [Pending]\<rparr>)
   \<and> (img_state im1 = Loaded bmp \<and> k < length (promises w1) \<and> promises w1 ! k = Pending \<longrightarrow>
      onLoad h (DemoOnLoad k) (im1, w1) =
        (im1\<lparr>listeners := remove1 (DemoOnLoad k) (listeners im1)\<rparr>,
         w1\<lparr>the_tester := snd (compareImage h (the_tester w1) im1),
            promises := (promises w1)[k := settle (fst (compareImage h (the_tester w1) im1))]\<rparr>)
      \<and> onLoad h (PopupOnLoad k) (im1, w1) =
        (im1\<lparr>listeners := remove1 (PopupOnLoad k) (listeners im1)\<rparr>,
         w1\<lparr>the_tester := snd (testImage h (the_tester w1) im1),
            promises := (promises w1)[k := settle (fst (testImage h (the_tester w1) im1))]\<rparr>))
   \<and> (load h u = Some bmp' \<longrightarrow>
      (case testIcon h (new_image u) w of (im2, w2) \<Rightarrow> load_event h im2 w2) =
        (\<lparr>src = u, img_state = Loaded bmp', listeners = []\<rparr>,
         w\<lparr>the_tester := snd (compareImage h (the_tester w)
                               \<lparr>src = u, img_state = Loaded bmp', listeners = []\<rparr>),
           promises := promises w @ [settle (fst (compareImage h (the_tester w)
                               \<lparr>src = u, img_state = Loaded bmp', listeners = []\<rparr>))]\<rparr>)
      \<and> (case initIcon h (new_image u) w of (im2, w2) \<Rightarrow> load_event h im2 w2) =
        (\<lparr>src = u, img_state = Loaded bmp', listeners = []\<rparr>,
         w\<lparr>the_tester := snd (testImage h (the_tester w)
                               \<lparr>src = u, img_state = Loaded bmp', listeners = []\<rparr>),
           promises := promises w @ [settle (fst (testImage h (the_tester w)
                               \<lparr>src = u, img_state = Loaded bmp', listeners = []\<rparr>))]\<rparr>))"
proof -
  have a: "complete imc \<longrightarrow>
      testIcon h imc w =
        (imc, w\<lparr>the_tester := snd (compareImage h (the_tester w) imc),
                promises := promises w @ [settle (fst (compareImage h (the_tester w) imc))]\<rparr>)"
    by (simp add: testIcon_def settle_def split: prod.splits sum.splits)
  have b: "\<not> complete iml \<longrightarrow>
      testIcon h iml w =
        (iml\<lparr>listeners := listeners iml @ [DemoOnLoad (length (promises w))]\<rparr>,
         w\<lparr>promises := promises w @ [Pending]\<rparr>)"
    by (simp add: testIcon_def)
  have c: "initIcon h im w =
        (im\<lparr>listeners := listeners im @ [PopupOnLoad (length (promises w))]\<rparr>,
         w\<lparr>promises := promises w @ [Pending]\<rparr>)"
    by (simp add: initIcon_def)
  have d: "img_state im1 = Loaded bmp \<and> k < length (promises w1) \<and> promises w1 ! k = Pending \<longrightarrow>
      onLoad h (DemoOnLoad k) (im1, w1) =
        (im1\<lparr>listeners := remove1 (DemoOnLoad k) (listeners im1)\<rparr>,
         w1\<lparr>the_tester := snd (compareImage h (the_tester w1) im1),
            promises := (promises w1)[k := settle (fst (compareImage h (the_tester w1) im1))]\<rparr>)"
    by (simp add: compareImage_eq resolve_def settle_def)
  have e: "img_state im1 = Loaded bmp \<and> k < length (promises w1) \<and> promises w1 ! k = Pending \<longrightarrow>
      onLoad h (PopupOnLoad k) (im1, w1) =
        (im1\<lparr>listeners := remove1 (PopupOnLoad k) (listeners im1)\<rparr>,
         w1\<lparr>the_tester := snd (testImage h (the_tester w1) im1),
            promises := (promises w1)[k := settle (fst (testImage h (the_tester w1) im1))]\<rparr>)"
    by (simp add: testImage_eq resolve_def settle_def)
  have f: "load h u = Some bmp' \<longrightarrow>
      (case testIcon h (new_image u) w of (im2, w2) \<Rightarrow> load_event h im2 w2) =
        (\<lparr>src = u, img_state = Loaded bmp', listeners = []\<rparr>,
         w\<lparr>the_tester := snd (compareImage h (the_tester w)
                               \<lparr>src = u, img_state = Loaded bmp', listeners = []\<rparr>),
           promises := promises w @ [settle (fst (compareImage h (the_tester w)
                               \<lparr>src = u, img_state = Loaded bmp', listeners = []\<rparr>))]\<rparr>)"
    by (simp add: demo_fresh_image) (simp add: compareImage_eq settle_def)
  have g: "load h u = Some bmp' \<longrightarrow>
      (case initIcon h (new_image u) w of (im2, w2) \<Rightarrow> load_event h im2 w2) =
        (\<lparr>src = u, img_state = Loaded bmp', listeners = []\<rparr>,
         w\<lparr>the_tester := snd (testImage h (the_tester w)
                               \<lparr>src = u, img_state = Loaded bmp', listeners = []\<rparr>),
           promises := promises w @ [settle (fst (testImage h (the_tester w)
                               \<lparr>src = u, img_state = Loaded bmp', listeners = []\<rparr>))]\<rparr>)"
    by (simp add: popup_fresh_image) (simp add: testImage_eq settle_def)
  from a b c d e f g show ?thesis by blast
qed

theorem load_synchronisation_witness:
  "complete sample_icon_a
   \<and> \<not> complete (new_image (src sample_icon_a) :: nat image)
   \<and> img_state sample_icon_a = Loaded [[1, 2], [3, 4]]
   \<and> (0 :: nat) < length (promises \<lparr>the_tester = sample_popup_tester, promises = [Pending]\<rparr>)
   \<and> promises \<lparr>the_tester = sample_popup_tester, promises = [Pending]\<rparr> ! 0 = Pending
   \<and> load sample_host (src sample_icon_a) = Some [[1, 2], [3, 4]]
   \<and> testIcon sample_host sample_icon_a \<lparr>the_tester = sample_demo_tester, promises = []\<rparr>
       = (sample_icon_a, \<lparr>the_tester = sample_demo_tester, promises = [Fulfilled True]\<rparr>)
   \<and> testIcon sample_host (new_image (src sample_icon_a))
         \<lparr>the_tester = sample_demo_tester, promises = []\<rparr>
       = (new_image (src sample_icon_a) \<lparr>listeners := [DemoOnLoad 0]\<rparr>,
          \<lparr>the_tester = sample_demo_tester, promises = [Pending]\<rparr>)
   \<and> onLoad sample_host (PopupOnLoad 0)
         (sample_icon_a\<lparr>listeners := [PopupOnLoad 0]\<rparr>,
          \<lparr>the_tester = sample_popup_tester, promises = [Pending]\<rparr>)
       = (sample_icon_a\<lparr>listeners := []\<rparr>,
          \<lparr>the_tester = sample_popup_tester
             \<lparr>canvas := \<lparr>width = 2, height = 2, bitmap = [[1, 2], [3, 4]]\<rparr>\<rparr>,
           promises = [Fulfilled False]\<rparr>)"
proof -
  let ?wd = "\<lparr>the_tester = sample_demo_tester, promises = []\<rparr>"
  let ?wp = "\<lparr>the_tester = sample_popup_tester, promises = [Pending]\<rparr>"
  let ?im = "sample_icon_a\<lparr>listeners := [PopupOnLoad 0]\<rparr>"
  note T = load_synchronisation [of sample_icon_a sample_host ?wd "new_image (src sample_icon_a)"
      sample_icon_a ?im "[[1, 2], [3, 4]]" 0 ?wp "src sample_icon_a" "[[1, 2], [3, 4]]"]
  have h1: "complete sample_icon_a" "\<not> complete (new_image (src sample_icon_a) :: nat image)"
    "img_state ?im = Loaded [[1, 2], [3, 4]]"
    by (simp_all add: complete_def sample_icon_a_def new_image_def)
  have h2: "load sample_host (src sample_icon_a) = Some [[1, 2], [3, 4]]"
    by code_simp
  have v1: "compareImage sample_host sample_demo_tester sample_icon_a = (Inr True, sample_demo_tester)"
    by code_simp
  have v2: "testImage sample_host sample_popup_tester ?im
      = (Inr False, sample_popup_tester\<lparr>canvas := \<lparr>width = 2, height = 2, bitmap = [[1, 2], [3, 4]]\<rparr>\<rparr>)"
    by code_simp
  have h3: "img_state ?im = Loaded [[1, 2], [3, 4]] \<and> 0 < length (promises ?wp)
      \<and> promises ?wp ! 0 = Pending"
    using h1 by simp
  note r1 = T [THEN conjunct1, THEN mp, OF h1(1)]
  note r2 = T [THEN conjunct2, THEN conjunct1, THEN mp, OF h1(2)]
  note r3 = T [THEN conjunct2, THEN conjunct2, THEN conjunct2, THEN conjunct1, THEN mp, OF h3,
      THEN conjunct2]
  have r1': "testIcon sample_host sample_icon_a ?wd
      = (sample_icon_a, \<lparr>the_tester = sample_demo_tester, promises = [Fulfilled True]\<rparr>)"
    using r1 by (simp add: v1 settle_def)
  have r2': "testIcon sample_host (new_image (src sample_icon_a)) ?wd
      = (new_image (src sample_icon_a) \<lparr>listeners := [DemoOnLoad 0]\<rparr>,
         \<lparr>the_tester = sample_demo_tester, promises = [Pending]\<rparr>)"
    using r2 by (simp add: new_image_def)
  have r3': "onLoad sample_host (PopupOnLoad 0) (?im, ?wp)
      = (sample_icon_a\<lparr>listeners := []\<rparr>,
         \<lparr>the_tester = sample_popup_tester
            \<lparr>canvas := \<lparr>width = 2, height = 2, bitmap = [[1, 2], [3, 4]]\<rparr>\<rparr>,
          promises = [Fulfilled False]\<rparr>)"
    using r3 by (simp add: v2 settle_def)
  have h4: "img_state sample_icon_a = Loaded [[1, 2], [3, 4]]"
    by (simp add: sample_icon_a_def)
  show ?thesis
    using h1(1,2) h2 h4 r1' r2' r3' by simp
qed

text \<open>
  C2 as stated fails for the popup: on a fully loaded image \<open>initIcon\<close> registers a
  listener and leaves its promise pending instead of comparing at once.
\<close>

theorem initIcon_on_loaded_image_counterexample:
  "complete sample_icon_a
   \<and> initIcon sample_host sample_icon_a \<lparr>the_tester = sample_popup_tester, promises = []\<rparr>
       = (sample_icon_a\<lparr>listeners := [PopupOnLoad 0]\<rparr>,
          \<lparr>the_tester = sample_popup_tester, promises = [Pending]\<rparr>)"
  by (simp add: complete_def sample_icon_a_def initIcon_def)

text \<open>
  C8, as the code has it. The two variants give the same verdict in these cases. Before
  calibration, a new element whose \<open>load\<close> event fires after the call is resolved
  with false by both. After each variant has been calibrated by its own \<open>init\<close>, a
  new element whose request the host answers with the placeholder bitmap is resolved
  with true by both. In both cases the two variants leave the same element behind:
  loaded, without listener. They differ in the load handling: on a complete image
  \<open>testIcon\<close> leaves the image without listener and settles its promise at once with
  the result of \<open>compareImage\<close>, while \<open>initIcon\<close> registers a listener, does not
  touch the tester and leaves its promise pending. Nothing is said here about icons
  with other pixels after calibration (lemma \<open>variants_differ_on_cached_icon\<close>).
\<close>

theorem variants_agreement:
  "(load h u = Some bmp \<longrightarrow>
        promises (snd (case testIcon h (new_image u) \<lparr>the_tester = makeIconTester h sz, promises = ps\<rparr>
                       of (im2, w2) \<Rightarrow> load_event h im2 w2)) = ps @ [Fulfilled False]
      \<and> promises (snd (case initIcon h (new_image u) \<lparr>the_tester = makeIconLoader h sz, promises = ps\<rparr>
                       of (im2, w2) \<Rightarrow> load_event h im2 w2)) = ps @ [Fulfilled False]
      \<and> fst (case testIcon h (new_image u) wd of (im2, w2) \<Rightarrow> load_event h im2 w2)
          = fst (case initIcon h (new_image u) wp of (im2, w2) \<Rightarrow> load_event h im2 w2))
   \<and> (demo_init h t = Some (Inr td) \<and> popup_init h t' = Some (Inr tp)
        \<and> load h u' = load h (getIconUrl h t' '''') \<longrightarrow>
        promises (snd (case testIcon h (new_image u') \<lparr>the_tester = td, promises = ps'\<rparr>
                       of (im2, w2) \<Rightarrow> load_event h im2 w2)) = ps' @ [Fulfilled True]
      \<and> promises (snd (case initIcon h (new_image u') \<lparr>the_tester = tp, promises = ps'\<rparr>
                       of (im2, w2) \<Rightarrow> load_event h im2 w2)) = ps' @ [Fulfilled True])
   \<and> (complete imc \<longrightarrow>
        fst (testIcon h imc w) = imc
      \<and> promises (snd (testIcon h imc w))
            = promises w @ [settle (fst (compareImage h (the_tester w) imc))]
      \<and> listeners (fst (initIcon h imc w)) = listeners imc @ [PopupOnLoad (length (promises w))]
      \<and> the_tester (snd (initIcon h imc w)) = the_tester w
      \<and> promises (snd (initIcon h imc w)) = promises w @ [Pending])"
proof (intro conjI impI)
  assume l: "load h u = Some bmp"
  show "promises (snd (case testIcon h (new_image u) \<lparr>the_tester = makeIconTester h sz, promises = ps\<rparr>
                       of (im2, w2) \<Rightarrow> load_event h im2 w2)) = ps @ [Fulfilled False]"
    by (simp add: demo_fresh_image [OF l] makeIconTester_def toDataURL_nonempty)
  show "promises (snd (case initIcon h (new_image u) \<lparr>the_tester = makeIconLoader h sz, promises = ps\<rparr>
                       of (im2, w2) \<Rightarrow> load_event h im2 w2)) = ps @ [Fulfilled False]"
    by (simp add: popup_fresh_image [OF l] makeIconLoader_def)
  show "fst (case testIcon h (new_image u) wd of (im2, w2) \<Rightarrow> load_event h im2 w2)
          = fst (case initIcon h (new_image u) wp of (im2, w2) \<Rightarrow> load_event h im2 w2)"
    by (simp add: demo_fresh_image [OF l] popup_fresh_image [OF l])
next
  assume a: "demo_init h t = Some (Inr td) \<and> popup_init h t' = Some (Inr tp)
        \<and> load h u' = load h (getIconUrl h t' '''')"
  then obtain pb where pb: "load h (getIconUrl h t' '''') = Some pb"
    and tp: "tp = t'\<lparr>canvas := drawn h (canvas t') pb,
                        missingData := Some (toDataURL h (drawn h (canvas t') pb))\<rparr>"
    by (auto simp: popup_init_eq split: option.splits)
  from a have td: "td = t\<lparr>canvas := cleared h (canvas t),
                       missingData := Some (toDataURL h (cleared h (canvas t)))\<rparr>"
    by (auto simp: demo_init_eq split: option.splits)
  from a pb have l: "load h u' = Some pb" by simp
  show "promises (snd (case testIcon h (new_image u') \<lparr>the_tester = td, promises = ps'\<rparr>
                       of (im2, w2) \<Rightarrow> load_event h im2 w2)) = ps' @ [Fulfilled True]"
    by (simp add: demo_fresh_image [OF l]) (simp add: td)
  show "promises (snd (case initIcon h (new_image u') \<lparr>the_tester = tp, promises = ps'\<rparr>
                       of (im2, w2) \<Rightarrow> load_event h im2 w2)) = ps' @ [Fulfilled True]"
    by (simp add: popup_fresh_image [OF l]) (simp add: tp)
next
  assume c: "complete imc"
  show "fst (testIcon h imc w) = imc"
    by (simp add: testIcon_complete [OF c])
  show "promises (snd (testIcon h imc w))
            = promises w @ [settle (fst (compareImage h (the_tester w) imc))]"
    by (simp add: testIcon_complete [OF c] compareImage_eq settle_def)
qed (simp_all add: initIcon_def)

theorem variants_agreement_witness:
  "load sample_host (src sample_icon_a) = Some [[1, 2], [3, 4]]
   \<and> demo_init sample_host (makeIconTester sample_host 2) = Some (Inr sample_demo_tester)
   \<and> popup_init sample_host (makeIconLoader sample_host 2) = Some (Inr sample_popup_tester)
   \<and> load sample_host (src sample_icon_x)
       = load sample_host (getIconUrl sample_host (makeIconLoader sample_host 2) '''')
   \<and> complete sample_icon_x
   \<and> promises (snd (case testIcon sample_host (new_image (src sample_icon_a))
                           \<lparr>the_tester = makeIconTester sample_host 2, promises = []\<rparr>
                    of (im2, w2) \<Rightarrow> load_event sample_host im2 w2)) = [Fulfilled False]
   \<and> promises (snd (case initIcon sample_host (new_image (src sample_icon_a))
                           \<lparr>the_tester = makeIconLoader sample_host 2, promises = []\<rparr>
                    of (im2, w2) \<Rightarrow> load_event sample_host im2 w2)) = [Fulfilled False]
   \<and> promises (snd (case testIcon sample_host (new_image (src sample_icon_x))
                           \<lparr>the_tester = sample_demo_tester, promises = []\<rparr>
                    of (im2, w2) \<Rightarrow> load_event sample_host im2 w2)) = [Fulfilled True]
   \<and> promises (snd (case initIcon sample_host (new_image (src sample_icon_x))
                           \<lparr>the_tester = sample_popup_tester, promises = []\<rparr>
                    of (im2, w2) \<Rightarrow> load_event sample_host im2 w2)) = [Fulfilled True]
   \<and> promises (snd (initIcon sample_host sample_icon_x
         \<lparr>the_tester = sample_popup_tester, promises = []\<rparr>)) = [Pending]"
proof -
  let ?wd = "\<lparr>the_tester = sample_demo_tester, promises = []\<rparr>"
  let ?wp = "\<lparr>the_tester = sample_popup_tester, promises = []\<rparr>"
  note T = variants_agreement [of sample_host "src sample_icon_a" "[[1, 2], [3, 4]]" 2 "[]"
      ?wd ?wp "makeIconTester sample_host 2" sample_demo_tester "makeIconLoader sample_host 2"
      sample_popup_tester "src sample_icon_x" "[]" sample_icon_x ?wp]
  have h1: "load sample_host (src sample_icon_a) = Some [[1, 2], [3, 4]]"
    by code_simp
  have h2: "load sample_host (src sample_icon_x)
       = load sample_host (getIconUrl sample_host (makeIconLoader sample_host 2) '''')"
    by code_simp
  have h3: "complete sample_icon_x"
    by (simp add: complete_def sample_icon_x_def)
  have h4: "demo_init sample_host (makeIconTester sample_host 2) = Some (Inr sample_demo_tester)
      \<and> popup_init sample_host (makeIconLoader sample_host 2) = Some (Inr sample_popup_tester)
      \<and> load sample_host (src sample_icon_x)
          = load sample_host (getIconUrl sample_host (makeIconLoader sample_host 2) '''')"
    using h2 by (simp add: sample_demo_init sample_popup_init)
  note r1 = T [THEN conjunct1, THEN mp, OF h1]
  note r2 = T [THEN conjunct2, THEN conjunct1, THEN mp, OF h4]
  note r3 = T [THEN conjunct2, THEN conjunct2, THEN mp, OF h3]
  from r3 have r3': "promises (snd (initIcon sample_host sample_icon_x ?wp)) = [Pending]"
    by simp
  from r1 have r1': "promises (snd (case testIcon sample_host (new_image (src sample_icon_a))
                           \<lparr>the_tester = makeIconTester sample_host 2, promises = []\<rparr>
                    of (im2, w2) \<Rightarrow> load_event sample_host im2 w2)) = [Fulfilled False]"
    "promises (snd (case initIcon sample_host (new_image (src sample_icon_a))
                           \<lparr>the_tester = makeIconLoader sample_host 2, promises = []\<rparr>
                    of (im2, w2) \<Rightarrow> load_event sample_host im2 w2)) = [Fulfilled False]"
    by simp_all
  from r2 have r2': "promises (snd (case testIcon sample_host (new_image (src sample_icon_x)) ?wd
                    of (im2, w2) \<Rightarrow> load_event sample_host im2 w2)) = [Fulfilled True]"
    "promises (snd (case initIcon sample_host (new_image (src sample_icon_x)) ?wp
                    of (im2, w2) \<Rightarrow> load_event sample_host im2 w2)) = [Fulfilled True]"
    by simp_all
  show ?thesis
    using h1 h2 h3 h4 r1' r2' r3' by simp
qed

text \<open>
  C8 as stated fails, with both variants calibrated by their own \<open>init\<close>: on a
  complete image that shows the placeholder, both comparisons give true, and the demo's
  \<open>testIcon\<close> fulfils its promise with true, while the popup's \<open>initIcon\<close> does not
  compare: it registers a listener and its promise stays pending.
\<close>

theorem variants_differ_on_complete_image_counterexample:
  "demo_init sample_host (makeIconTester sample_host 2) = Some (Inr sample_demo_tester)
   \<and> popup_init sample_host (makeIconLoader sample_host 2) = Some (Inr sample_popup_tester)
   \<and> complete sample_icon_x
   \<and> fst (compareImage sample_host sample_demo_tester sample_icon_x) = Inr True
   \<and> fst (testImage sample_host sample_popup_tester sample_icon_x) = Inr True
   \<and> testIcon sample_host sample_icon_x \<lparr>the_tester = sample_demo_tester, promises = []\<rparr>
       = (sample_icon_x, \<lparr>the_tester = sample_demo_tester, promises = [Fulfilled True]\<rparr>)
   \<and> initIcon sample_host sample_icon_x \<lparr>the_tester = sample_popup_tester, promises = []\<rparr>
       = (sample_icon_x\<lparr>listeners := [PopupOnLoad 0]\<rparr>,
          \<lparr>the_tester = sample_popup_tester, promises = [Pending]\<rparr>)"
proof -
  have "fst (compareImage sample_host sample_demo_tester sample_icon_x) = Inr True"
    by code_simp
  moreover have "fst (testImage sample_host sample_popup_tester sample_icon_x) = Inr True"
    by code_simp
  moreover have "testIcon sample_host sample_icon_x \<lparr>the_tester = sample_demo_tester, promises = []\<rparr>
       = (sample_icon_x, \<lparr>the_tester = sample_demo_tester, promises = [Fulfilled True]\<rparr>)"
    by code_simp
  ultimately show ?thesis
    by (simp add: sample_demo_init sample_popup_init complete_def sample_icon_x_def initIcon_def)
qed

text \<open>
  C3. After \<open>chrome.tabs.create\<close> has returned tab \<open>n\<close>: when an update for tab
  \<open>n\<close> with a non-empty \<open>favIconUrl\<close> is delivered before the timer task and before
  any other such update, the call resolves with that URL, whatever is delivered
  afterwards; when the timer task is delivered and no such update came before it, the
  call resolves with the empty string. In both cases the promise is fulfilled, not
  rejected.
\<close>

theorem recovery_outcome:
  "(favIconUrl \<noteq> '''' \<and> (\<forall>e\<in>set before. \<not> discovers n e \<and> e \<noteq> TimerFired) \<longrightarrow>
      outcome (run (before @ Updated n (Some favIconUrl) # after) (fetchFavIcon (Inr n) domain timeout))
        = Fulfilled favIconUrl)
   \<and> ((\<forall>e\<in>set before'. \<not> discovers n e) \<longrightarrow>
      outcome (run (before' @ TimerFired # after') (fetchFavIcon (Inr n) domain timeout))
        = Fulfilled '''')"
proof (intro conjI impI)
  let ?r0 = "fetchFavIcon (Inr n) domain timeout"
  assume a: "favIconUrl \<noteq> '''' \<and> (\<forall>e\<in>set before. \<not> discovers n e \<and> e \<noteq> TimerFired)"
  have t: "tab ?r0 = Some n" by (simp add: fetchFavIcon_def)
  have "run before ?r0 = ?r0"
    using t a by (simp add: run_others)
  moreover have "deliver (Updated n (Some favIconUrl)) ?r0 = finish (Some favIconUrl) ?r0"
    using a by (simp add: onUpdated_def truthy_def fetchFavIcon_def)
  moreover have "outcome (finish (Some favIconUrl) ?r0) = Fulfilled favIconUrl"
    by (simp add: finish_def fetchFavIcon_def)
  ultimately show "outcome (run (before @ Updated n (Some favIconUrl) # after) ?r0) = Fulfilled favIconUrl"
    by (simp add: run_idle)
next
  let ?r0 = "fetchFavIcon (Inr n) domain timeout"
  let ?r1 = "finish None (?r0\<lparr>timer_pending := False\<rparr>)"
  assume "\<forall>e\<in>set before'. \<not> discovers n e"
  then have "run before' ?r0 = ?r0 \<or> run before' ?r0 = ?r1"
    by (rule run_no_discovery)
  moreover have "deliver TimerFired ?r0 = ?r1"
    by (simp add: fetchFavIcon_def)
  ultimately have "run (before' @ [TimerFired]) ?r0 = ?r1"
    by (auto simp: deliver_idle)
  then have "run (before' @ TimerFired # after') ?r0 = ?r1"
    by (simp add: run_idle)
  then show "outcome (run (before' @ TimerFired # after') ?r0) = Fulfilled ''''"
    by (simp add: finish_def fetchFavIcon_def)
qed

theorem recovery_outcome_witness:
  "''https://a.com/favicon.ico'' \<noteq> ''''
   \<and> outcome (run [Updated 3 (Some ''https://other/f.ico''), Updated 7 None,
                    Updated 7 (Some ''https://a.com/favicon.ico''), TimerFired,
                    Updated 7 (Some ''https://a.com/late.ico'')]
                 (fetchFavIcon (Inr 7) ''a.com'' 5000))
       = Fulfilled ''https://a.com/favicon.ico''
   \<and> outcome (run [Updated 3 (Some ''https://other/f.ico''), Updated 7 (Some ''''),
                    TimerFired, Updated 7 (Some ''https://a.com/late.ico'')]
                 (fetchFavIcon (Inr 7) ''a.com'' 5000))
       = Fulfilled ''''"
proof -
  note T = recovery_outcome [of "''https://a.com/favicon.ico''"
      "[Updated 3 (Some ''https://other/f.ico''), Updated 7 None]" 7
      "[TimerFired, Updated 7 (Some ''https://a.com/late.ico'')]" "''a.com''" 5000
      "[Updated 3 (Some ''https://other/f.ico''), Updated 7 (Some '''')]"
      "[Updated 7 (Some ''https://a.com/late.ico'')]"]
  have h1: "''https://a.com/favicon.ico'' \<noteq> ''''
      \<and> (\<forall>e\<in>set [Updated 3 (Some ''https://other/f.ico''), Updated 7 None].
             \<not> discovers 7 e \<and> e \<noteq> TimerFired)"
    by (simp add: truthy_def)
  have h2: "\<forall>e\<in>set [Updated 3 (Some ''https://other/f.ico''), Updated 7 (Some '''')].
             \<not> discovers 7 e"
    by (simp add: truthy_def)
  from T [THEN conjunct1, THEN mp, OF h1] T [THEN conjunct2, THEN mp, OF h2]
  show ?thesis by simp
qed

text \<open>
  C4. Whatever the host delivers, in whatever order and however often: as long as the
  promise is pending none of the three teardown calls (\<open>removeListener\<close>,
  \<open>tabs.remove\<close>, \<open>clearTimeout\<close>) has run, and once the promise is settled each of
  them has run exactly once. After a successful \<open>tabs.create\<close> the call is settled as
  soon as the timer task or a discovering update has been delivered. When
  \<open>tabs.create\<close> rejects, the call never completes and nothing was set up.
\<close>

theorem teardown_exactly_once:
  "(outcome (run evs (fetchFavIcon created domain timeout)) = Pending \<longrightarrow>
      torn_down 0 (run evs (fetchFavIcon created domain timeout)))
   \<and> (outcome (run evs (fetchFavIcon created domain timeout)) \<noteq> Pending \<longrightarrow>
      torn_down 1 (run evs (fetchFavIcon created domain timeout)))
   \<and> (created = Inr n \<and> (\<exists>e\<in>set evs. e = TimerFired \<or> discovers n e) \<longrightarrow>
      outcome (run evs (fetchFavIcon created domain timeout)) \<noteq> Pending)"
proof -
  let ?r0 = "fetchFavIcon created domain timeout"
  have "outcome ?r0 = Pending \<and> torn_down 0 ?r0"
    by (simp add: fetchFavIcon_def torn_down_def split: sum.splits)
  then have "(outcome (run evs ?r0) = Pending \<and> torn_down 0 (run evs ?r0))
         \<or> (outcome (run evs ?r0) \<noteq> Pending \<and> torn_down 1 (run evs ?r0)
             \<and> \<not> listening (run evs ?r0) \<and> \<not> timer_pending (run evs ?r0))"
    by (intro run_teardown) simp
  moreover have "created = Inr n \<and> (\<exists>e\<in>set evs. e = TimerFired \<or> discovers n e) \<longrightarrow>
      outcome (run evs ?r0) \<noteq> Pending"
    using run_completes by blast
  ultimately show ?thesis by blast
qed

theorem teardown_exactly_once_witness:
  "outcome (run [Updated 7 (Some ''https://a.com/favicon.ico''), TimerFired,
                 Updated 7 (Some ''https://a.com/late.ico'')]
              (fetchFavIcon (Inr 7) ''a.com'' 5000)) \<noteq> Pending
   \<and> torn_down 1 (run [Updated 7 (Some ''https://a.com/favicon.ico''), TimerFired,
                        Updated 7 (Some ''https://a.com/late.ico'')]
                     (fetchFavIcon (Inr 7) ''a.com'' 5000))"
proof -
  let ?evs = "[Updated 7 (Some ''https://a.com/favicon.ico''), TimerFired,
               Updated 7 (Some ''https://a.com/late.ico'')]"
  note T = teardown_exactly_once [of ?evs "Inr 7" "''a.com''" 5000 7]
  have h: "(Inr 7 :: error + nat) = Inr 7 \<and> (\<exists>e\<in>set ?evs. e = TimerFired \<or> discovers 7 e)"
    by simp
  note c = T [THEN conjunct2, THEN conjunct2, THEN mp, OF h]
  from c T [THEN conjunct2, THEN conjunct1, THEN mp, OF c] show ?thesis
    by simp
qed

text \<open>
  C5. For a bookmark tree whose bookmark URLs are all accepted by \<open>new URL\<close>, and a
  limit that is a natural number, \<open>getDomains\<close> returns a list without repetition of
  hostnames of HTTPS bookmarks of the tree. It has exactly \<open>limit\<close> entries when the
  tree has more than \<open>limit\<close> distinct HTTPS hostnames, and otherwise as many entries
  as there are distinct HTTPS hostnames, and then it holds every one of them. For the
  tree with the URLs https://a.com, https://a.com/page2, http://b.com and https://c.com
  and limit 10 the result is a.com, c.com.
\<close>

theorem getDomains_bounds:
  "(list_all (valid_url h) (bookmark_urls b) \<longrightarrow>
      (\<exists>domains. getDomains h b limit [] = Inr domains
         \<and> distinct domains
         \<and> set domains \<subseteq> set (https_hostnames h b)
         \<and> length domains = (if limit < card (set (https_hostnames h b)) then limit
                              else card (set (https_hostnames h b)))
         \<and> (card (set (https_hostnames h b)) \<le> limit \<longrightarrow>
                set domains = set (https_hostnames h b))))
   \<and> getDomains sample_host sample_tree 10 [] = Inr [''a.com'', ''c.com'']"
proof (intro conjI impI)
  let ?H = "https_hostnames h b"
  let ?r = "collect limit ?H []"
  assume "list_all (valid_url h) (bookmark_urls b)"
  then have g: "getDomains h b limit [] = Inr ?r"
    by (simp add: getDomains_collect https_hostnames_def)
  note p = collect_props [of "[]" limit ?H, simplified]
  have l: "length ?r = (if limit < card (set ?H) then limit else card (set ?H))"
    by (rule collect_length)
  have "set ?r = set ?H" if "card (set ?H) \<le> limit"
  proof (rule card_subset_eq)
    show "finite (set ?H)" by simp
    show "set ?r \<subseteq> set ?H" using p by simp
    have "card (set ?r) = length ?r" using p by (simp add: distinct_card)
    then show "card (set ?r) = card (set ?H)" using l that by simp
  qed
  with g p l show "\<exists>domains. getDomains h b limit [] = Inr domains
         \<and> distinct domains
         \<and> set domains \<subseteq> set ?H
         \<and> length domains = (if limit < card (set ?H) then limit else card (set ?H))
         \<and> (card (set ?H) \<le> limit \<longrightarrow> set domains = set ?H)"
    by auto
next
  show "getDomains sample_host sample_tree 10 [] = Inr [''a.com'', ''c.com'']"
    by (rule sample_getDomains)
qed

theorem getDomains_bounds_witness:
  "list_all (valid_url sample_host) (bookmark_urls sample_tree)
   \<and> getDomains sample_host sample_tree 1 [] = Inr [''a.com'']
   \<and> https_hostnames sample_host sample_tree = [''a.com'', ''a.com'', ''c.com'']
   \<and> (1 :: nat) < card (set (https_hostnames sample_host sample_tree))"
proof -
  have v: "list_all (valid_url sample_host) (bookmark_urls sample_tree)"
    by code_simp
  have e: "getDomains sample_host sample_tree 1 [] = Inr [''a.com'']"
    by code_simp
  have hs: "https_hostnames sample_host sample_tree = [''a.com'', ''a.com'', ''c.com'']"
    by code_simp
  from getDomains_bounds [of sample_host sample_tree 1, THEN conjunct1, THEN mp, OF v]
  obtain domains where d: "getDomains sample_host sample_tree 1 [] = Inr domains"
    and l: "length domains = (if 1 < card (set (https_hostnames sample_host sample_tree)) then 1
                              else card (set (https_hostnames sample_host sample_tree)))"
    and s: "card (set (https_hostnames sample_host sample_tree)) \<le> 1 \<longrightarrow>
                set domains = set (https_hostnames sample_host sample_tree)"
    by blast
  from d e have "domains = [''a.com'']" by simp
  with s hs have "1 < card (set (https_hostnames sample_host sample_tree))"
    by (cases "card (set (https_hostnames sample_host sample_tree)) \<le> 1") auto
  with v e hs show ?thesis by simp
qed

end
